theory Spec2Isabelle
  imports Complex_Main "HOL-Library.Word" "HOL-Library.Log_Nat" "HOL-Library.Multiset"
    "HOL-Library.Sublist"
begin

section \<open>Go values used by the program\<close>

subsection \<open>float64\<close>

text \<open>
  A float64 is a finite binary64 number (its exact rational value; \<open>Finite 0\<close> is +0),
  the negative zero, an infinity or a NaN. Arithmetic computes the exact rational result
  and rounds it to the nearest binary64 number, ties to even (53 bits of precision,
  least exponent \<open>2^-1074\<close>, overflow to infinity from \<open>2^1024\<close>).
\<close>

datatype float64 = Finite rat | NegZero | PosInf | NegInf | NaN

definition rne :: "rat \<Rightarrow> int" where
  "rne x = (let f = \<lfloor>x\<rfloor>; d = x - of_int f in
     if d < 1/2 then f else if 1/2 < d then f + 1 else if even f then f else f + 1)"

definition ilog2 :: "rat \<Rightarrow> int" where
  "ilog2 x = (case quotient_of x of (p, q) \<Rightarrow>
     (let k = bitlen p - bitlen q in if 2 powi k \<le> x then k else k - 1))"

definition expo :: "rat \<Rightarrow> int" where
  "expo x = max (ilog2 \<bar>x\<bar> - 52) (- 1074)"

definition round_rat :: "rat \<Rightarrow> rat" where
  "round_rat x = (if x = 0 then 0 else of_int (rne (x / 2 powi expo x)) * 2 powi expo x)"

definition pack :: "rat \<Rightarrow> float64" where
  "pack x = (let r = round_rat x in
     if 2 ^ 1024 \<le> r then PosInf
     else if r \<le> - (2 ^ 1024) then NegInf
     else if r = 0 \<and> x < 0 then NegZero
     else Finite r)"

fun val :: "float64 \<Rightarrow> rat" where
  "val (Finite r) = r"
| "val _ = 0"

fun is_inf :: "float64 \<Rightarrow> bool" where
  "is_inf PosInf = True"
| "is_inf NegInf = True"
| "is_inf _ = False"

fun is_zero :: "float64 \<Rightarrow> bool" where
  "is_zero (Finite r) = (r = 0)"
| "is_zero NegZero = True"
| "is_zero _ = False"

fun signbit :: "float64 \<Rightarrow> bool" where
  "signbit (Finite r) = (r < 0)"
| "signbit NegZero = True"
| "signbit NegInf = True"
| "signbit _ = False"

definition f64_sub :: "float64 \<Rightarrow> float64 \<Rightarrow> float64" where
  "f64_sub a b =
     (if a = NaN \<or> b = NaN then NaN
      else if is_inf a then (if a = b then NaN else a)
      else if is_inf b then (if b = PosInf then NegInf else PosInf)
      else if val a - val b = 0 then (if a = NegZero \<and> b \<noteq> NegZero then NegZero else Finite 0)
      else pack (val a - val b))"

definition f64_div :: "float64 \<Rightarrow> float64 \<Rightarrow> float64" where
  "f64_div a b =
     (if a = NaN \<or> b = NaN then NaN
      else if is_inf a then
        (if is_inf b then NaN else if signbit a = signbit b then PosInf else NegInf)
      else if is_inf b then (if signbit a = signbit b then Finite 0 else NegZero)
      else if is_zero b then
        (if is_zero a then NaN else if signbit a = signbit b then PosInf else NegInf)
      else if is_zero a then (if signbit a = signbit b then Finite 0 else NegZero)
      else pack (val a / val b))"

definition f64_mul :: "float64 \<Rightarrow> float64 \<Rightarrow> float64" where
  "f64_mul a b =
     (if a = NaN \<or> b = NaN then NaN
      else if is_inf a \<or> is_inf b then
        (if is_zero a \<or> is_zero b then NaN
         else if signbit a = signbit b then PosInf else NegInf)
      else if is_zero a \<or> is_zero b then (if signbit a = signbit b then Finite 0 else NegZero)
      else pack (val a * val b))"

definition f64_le :: "float64 \<Rightarrow> float64 \<Rightarrow> bool" where
  "f64_le a b \<longleftrightarrow> a \<noteq> NaN \<and> b \<noteq> NaN \<and>
     (a = NegInf \<or> b = PosInf \<or> (\<not> is_inf a \<and> \<not> is_inf b \<and> val a \<le> val b))"

definition f64_ge :: "float64 \<Rightarrow> float64 \<Rightarrow> bool" where
  "f64_ge a b \<longleftrightarrow> f64_le b a"

text \<open>
  A rational number is a float64 when rounding leaves it as it is; JSON decoding produces
  such numbers (and the negative zero).
\<close>

definition is_f64 :: "rat \<Rightarrow> bool" where
  "is_f64 r \<longleftrightarrow> pack r = Finite r"

subsection \<open>int\<close>

text \<open>Go's \<open>int\<close> is 64 bits wide on the supported platforms; \<open>sint\<close> reads it.\<close>

type_synonym go_int = "64 word"

definition trunc :: "rat \<Rightarrow> int" where
  "trunc r = (if 0 \<le> r then \<lfloor>r\<rfloor> else \<lceil>r\<rceil>)"

text \<open>
  The conversion \<open>int(x)\<close> truncates towards zero. Where the truncated value does not fit
  (or \<open>x\<close> is an infinity or a NaN) the conversion succeeds with a value that depends on
  the platform: the parameter \<open>undef\<close> gives it.
\<close>

definition f64_to_int :: "(float64 \<Rightarrow> go_int) \<Rightarrow> float64 \<Rightarrow> go_int" where
  "f64_to_int undef x =
     (case x of
        Finite r \<Rightarrow>
          if - (2 ^ 63) \<le> trunc r \<and> trunc r < 2 ^ 63 then word_of_int (trunc r) else undef x
      | NegZero \<Rightarrow> 0
      | _ \<Rightarrow> undef x)"

subsection \<open>Formatting verbs of fmt.Sprintf\<close>

fun dec_nat :: "nat \<Rightarrow> string" where
  "dec_nat n =
     (if n < 10 then [''0123456789'' ! n]
      else dec_nat (n div 10) @ [''0123456789'' ! (n mod 10)])"

declare dec_nat.simps [simp del]

text \<open>The verb \<open>%d\<close> on an int.\<close>

definition fmt_d :: "go_int \<Rightarrow> string" where
  "fmt_d w = (if sint w < 0 then ''-'' @ dec_nat (nat (- sint w)) else dec_nat (nat (sint w)))"

definition fmt_fixed :: "nat \<Rightarrow> rat \<Rightarrow> string" where
  "fmt_fixed prec r =
     (let n = nat (rne (r * 10 ^ prec));
          frac = dec_nat (n mod 10 ^ prec)
      in dec_nat (n div 10 ^ prec) @
         (if prec = 0 then [] else ''.'' @ replicate (prec - length frac) CHR ''0'' @ frac))"

text \<open>The verb \<open>%.<prec>f\<close> on a float64: the exact value, rounded half to even.\<close>

definition fmt_f :: "nat \<Rightarrow> float64 \<Rightarrow> string" where
  "fmt_f prec x =
     (case x of
        Finite r \<Rightarrow> (if r < 0 then ''-'' else []) @ fmt_fixed prec \<bar>r\<bar>
      | NegZero \<Rightarrow> ''-'' @ fmt_fixed prec 0
      | PosInf \<Rightarrow> ''+Inf''
      | NegInf \<Rightarrow> ''-Inf''
      | NaN \<Rightarrow> ''NaN'')"

subsection \<open>time.Time and time.Duration\<close>

text \<open>
  A Time is an instant, in nanoseconds since the zero Time (January 1, year 1, 00:00 UTC),
  with the offset of its zone. A Duration is an int64 count of nanoseconds, read by
  \<open>sint\<close>.
\<close>

record Time =
  instant :: int
  zoneOffset :: int

definition zeroTime :: Time where
  "zeroTime = \<lparr>instant = 0, zoneOffset = 0\<rparr>"

definition After :: "Time \<Rightarrow> Time \<Rightarrow> bool" where
  "After t u \<longleftrightarrow> instant u < instant t"

text \<open>\<open>t.Sub(u)\<close> saturates at the least and the greatest Duration.\<close>

definition Sub :: "Time \<Rightarrow> Time \<Rightarrow> int" where
  "Sub t u = max (- (2 ^ 63)) (min (2 ^ 63 - 1) (instant t - instant u))"

text \<open>\<open>time.Since(t)\<close>, with the reading \<open>now\<close> of the clock made explicit.\<close>

definition Since :: "Time \<Rightarrow> Time \<Rightarrow> int" where
  "Since now t = Sub now t"

subsection \<open>Panics of indexing and slicing\<close>

datatype panic = IndexOutOfRange | SliceBoundsOutOfRange

definition go_index :: "'a list \<Rightarrow> nat \<Rightarrow> panic + 'a" where
  "go_index xs i = (if i < length xs then Inr (xs ! i) else Inl IndexOutOfRange)"

definition go_slice_to :: "string \<Rightarrow> nat \<Rightarrow> panic + string" where
  "go_slice_to s n = (if n \<le> length s then Inr (take n s) else Inl SliceBoundsOutOfRange)"

section \<open>Data model\<close>

record StoreConfig =
  store_Name :: string
  store_APIURL :: string
  store_BaseURL :: string
  store_PortalID :: string

record Config =
  cfg_Store :: StoreConfig
  cfg_UserAgent :: string
  cfg_Port :: go_int
  cfg_CacheDuration :: "64 word"

record Header =
  hdr_Title :: string
  hdr_Description :: string
  hdr_ImageURL :: string

record Image =
  img_URL :: string

record ProductData =
  prod_ID :: string
  prod_ProductID :: go_int
  prod_Name :: string
  prod_NameProperties :: string
  prod_ProductTypeName :: string
  prod_BrandName :: string
  prod_AverageRating :: float64
  prod_TotalRatings :: go_int
  prod_Images :: "Image list"

record OfferPrice =
  price_AmountInclusive :: float64
  price_Currency :: string

record OfferSales =
  sales_NumberOfItems :: go_int
  sales_NumberOfItemsSold :: go_int
  sales_ValidFrom :: string

record InsteadPrice =
  iprice_AmountInclusive :: float64

record InsteadOf =
  instead_Price :: InsteadPrice

text \<open>The pointer \<open>InsteadOfPrice\<close> is \<open>None\<close> when nil.\<close>

record OfferData =
  offer_Price :: OfferPrice
  offer_SalesInformation :: OfferSales
  offer_InsteadOfPrice :: "InsteadOf option"

record Product =
  p_Product :: ProductData
  p_Offer :: OfferData

text \<open>
  The store holds the backing arrays of the \<open>[]Product\<close> slices; an address is an index
  into it. A slice is nil (\<open>None\<close>) or the address of its backing array, which it spans.
\<close>

type_synonym heap = "Product list list"

type_synonym slice = "nat option"

definition slice_elems :: "heap \<Rightarrow> slice \<Rightarrow> Product list" where
  "slice_elems h s = (case s of None \<Rightarrow> [] | Some a \<Rightarrow> h ! a)"

definition valid_slice :: "heap \<Rightarrow> slice \<Rightarrow> bool" where
  "valid_slice h s = (case s of None \<Rightarrow> True | Some a \<Rightarrow> a < length h)"

record AdventCalendar =
  cal_CurrentDate :: string
  cal_Header :: Header
  cal_Products :: slice

record AtomAuthor =
  author_Name :: string
  author_URI :: string

record AtomLink =
  link_Href :: string
  link_Rel :: string
  link_Type :: string

record AtomContent =
  content_Type :: string
  content_Content :: string

record AtomEntry =
  entry_Title :: string
  entry_Link :: AtomLink
  entry_ID :: string
  entry_Updated :: string
  entry_Summary :: AtomContent
  entry_Content :: AtomContent

record AtomFeed =
  feed_XMLName :: "string \<times> string"
  feed_XMLNS :: string
  feed_Title :: string
  feed_Subtitle :: string
  feed_Link :: AtomLink
  feed_Icon :: string
  feed_Updated :: string
  feed_ID :: string
  feed_Author :: "AtomAuthor option"
  feed_Entries :: "AtomEntry list"

text \<open>The cache, without its lock: the calls are modelled one at a time.\<close>

record Cache =
  cache_data :: "AtomFeed option"
  cache_fetchedAt :: Time
  cache_duration :: "64 word"

text \<open>
  What the program takes from Go's library and platform: \<open>time.Parse\<close> with the layout
  \<open>time.RFC3339\<close> (\<open>None\<close> when it returns an error), \<open>Time.Format\<close> with the same
  layout, \<open>sort.Slice\<close>, and the value of an \<open>int\<close> conversion that does not fit.
\<close>

record Runtime =
  time_Parse :: "string \<Rightarrow> Time option"
  time_Format :: "Time \<Rightarrow> string"
  sort_Slice :: "(Product \<Rightarrow> Product \<Rightarrow> bool) \<Rightarrow> Product list \<Rightarrow> Product list"
  conv_undefined :: "float64 \<Rightarrow> go_int"

text \<open>
  The contract of \<open>sort.Slice\<close>: for a strict weak ordering \<open>lt\<close> the result is a
  rearrangement of the slice in which no element is less than an earlier one. The order
  of equal elements is left open.
\<close>

definition strict_weak :: "('a \<Rightarrow> 'a \<Rightarrow> bool) \<Rightarrow> bool" where
  "strict_weak lt \<longleftrightarrow>
     (\<forall>a. \<not> lt a a) \<and>
     (\<forall>a b c. lt a b \<longrightarrow> lt b c \<longrightarrow> lt a c) \<and>
     (\<forall>a b c. \<not> lt a b \<longrightarrow> \<not> lt b c \<longrightarrow> \<not> lt a c)"

definition sort_Slice_ok :: "Runtime \<Rightarrow> bool" where
  "sort_Slice_ok rt \<longleftrightarrow>
     (\<forall>lt xs. strict_weak lt \<longrightarrow>
        mset (sort_Slice rt lt xs) = mset xs \<and>
        sorted_wrt (\<lambda>a b. \<not> lt b a) (sort_Slice rt lt xs))"

section \<open>The cache\<close>

text \<open>\<open>Get\<close> returns the document (or nil) and leaves the cache as it is.\<close>

definition Cache_Get :: "Time \<Rightarrow> Cache \<Rightarrow> AtomFeed option \<times> Cache" where
  "Cache_Get now c =
     (if cache_data c \<noteq> None \<and> Since now (cache_fetchedAt c) < sint (cache_duration c)
      then (cache_data c, c) else (None, c))"

definition Cache_Set :: "Time \<Rightarrow> AtomFeed \<Rightarrow> Cache \<Rightarrow> Cache" where
  "Cache_Set now feed c = c\<lparr>cache_data := Some feed, cache_fetchedAt := now\<rparr>"

text \<open>The cache that \<open>main\<close> constructs: \<open>&Cache{duration: config.CacheDuration}\<close>.\<close>

definition newCache :: "64 word \<Rightarrow> Cache" where
  "newCache d = \<lparr>cache_data = None, cache_fetchedAt = zeroTime, cache_duration = d\<rparr>"

section \<open>The feed builder\<close>

definition calculateDiscount :: "(float64 \<Rightarrow> go_int) \<Rightarrow> float64 \<Rightarrow> float64 \<Rightarrow> go_int" where
  "calculateDiscount undef current original =
     (if f64_le original (Finite 0) \<or> f64_ge current original then 0
      else f64_to_int undef
             (f64_mul (f64_div (f64_sub original current) original) (Finite 100)))"

definition parseValidFrom :: "Runtime \<Rightarrow> string \<Rightarrow> Time" where
  "parseValidFrom rt validFrom =
     (case time_Parse rt validFrom of None \<Rightarrow> zeroTime | Some t \<Rightarrow> t)"

definition validFromOf :: "Product \<Rightarrow> string" where
  "validFromOf p = sales_ValidFrom (offer_SalesInformation (p_Offer p))"

text \<open>The closure passed to \<open>sort.Slice\<close>, on the two elements it compares.\<close>

definition lessValidFrom :: "Runtime \<Rightarrow> Product \<Rightarrow> Product \<Rightarrow> bool" where
  "lessValidFrom rt p_i p_j \<longleftrightarrow>
     After (parseValidFrom rt (validFromOf p_i)) (parseValidFrom rt (validFromOf p_j))"

definition productURL :: "Config \<Rightarrow> Product \<Rightarrow> string" where
  "productURL cfg p =
     store_BaseURL (cfg_Store cfg) @ ''/product/'' @ fmt_d (prod_ProductID (p_Product p))"

definition stableID :: "Product \<Rightarrow> string" where
  "stableID p = ''urn:advent:'' @ fmt_d (prod_ProductID (p_Product p))"

definition discountOf :: "Runtime \<Rightarrow> Product \<Rightarrow> go_int" where
  "discountOf rt p =
     (case offer_InsteadOfPrice (p_Offer p) of
        None \<Rightarrow> 0
      | Some io \<Rightarrow>
          calculateDiscount (conv_undefined rt)
            (price_AmountInclusive (offer_Price (p_Offer p)))
            (iprice_AmountInclusive (instead_Price io)))"

definition titleOf :: "Runtime \<Rightarrow> Product \<Rightarrow> string" where
  "titleOf rt p =
     (let discount = discountOf rt p;
          title = prod_BrandName (p_Product p) @ '': '' @ prod_Name (p_Product p);
          title = (if prod_NameProperties (p_Product p) \<noteq> []
                   then title @ '' - '' @ prod_NameProperties (p_Product p) else title)
      in if 0 <s discount then ''['' @ fmt_d discount @ ''% off] '' @ title else title)"

definition imageHTML :: "Product \<Rightarrow> panic + string" where
  \<open>imageHTML p =
     (if 0 < length (prod_Images (p_Product p)) then
        (case go_index (prod_Images (p_Product p)) 0 of
           Inl e \<Rightarrow> Inl e
         | Inr im \<Rightarrow>
             Inr (''<img src="'' @ img_URL im @ ''" alt="'' @ prod_Name (p_Product p) @
                  ''" style="max-width:400px;"/><br/><br/>''))
      else Inr [])\<close>

definition stockInfo :: "Product \<Rightarrow> string" where
  "stockInfo p =
     (let remaining = sales_NumberOfItems (offer_SalesInformation (p_Offer p)) -
                      sales_NumberOfItemsSold (offer_SalesInformation (p_Offer p))
      in fmt_d remaining @ ''/'' @
         fmt_d (sales_NumberOfItems (offer_SalesInformation (p_Offer p))) @ '' remaining'')"

definition priceInfo :: "Product \<Rightarrow> string" where
  "priceInfo p =
     (case offer_InsteadOfPrice (p_Offer p) of
        None \<Rightarrow>
          fmt_f 2 (price_AmountInclusive (offer_Price (p_Offer p))) @ '' '' @
          price_Currency (offer_Price (p_Offer p))
      | Some io \<Rightarrow>
          ''<strong>'' @ fmt_f 2 (price_AmountInclusive (offer_Price (p_Offer p))) @ '' '' @
          price_Currency (offer_Price (p_Offer p)) @ ''</strong> <s>'' @
          fmt_f 2 (iprice_AmountInclusive (instead_Price io)) @ '' '' @
          price_Currency (offer_Price (p_Offer p)) @ ''</s>'')"

definition ratingInfo :: "Product \<Rightarrow> string" where
  "ratingInfo p =
     (if 0 <s prod_TotalRatings (p_Product p)
      then fmt_f 1 (prod_AverageRating (p_Product p)) @ ''/5 ('' @
           fmt_d (prod_TotalRatings (p_Product p)) @ '' reviews)''
      else [])"

definition contentOf :: "Config \<Rightarrow> Product \<Rightarrow> string \<Rightarrow> string" where
  \<open>contentOf cfg p imageTag =
     (let content = imageTag @ ''<p><strong>Brand:</strong> '' @ prod_BrandName (p_Product p) @
            ''</p>'' @ [CHR 0x0A] @
            ''<p><strong>Type:</strong> '' @ prod_ProductTypeName (p_Product p) @
            ''</p>'' @ [CHR 0x0A] @
            ''<p><strong>Price:</strong> '' @ priceInfo p @ ''</p>'' @ [CHR 0x0A] @
            ''<p><strong>Stock:</strong> '' @ stockInfo p @ ''</p>'';
          content = (if ratingInfo p \<noteq> []
                     then content @ [CHR 0x0A] @ ''<p><strong>Rating:</strong> '' @
                          ratingInfo p @ ''</p>''
                     else content)
      in content @ ''<p><a href="'' @ productURL cfg p @ ''">View on '' @
         store_Name (cfg_Store cfg) @ ''</a></p>'')\<close>

text \<open>The body of the loop over the sorted products: the entry of one product.\<close>

definition buildEntry :: "Runtime \<Rightarrow> Config \<Rightarrow> Product \<Rightarrow> panic + AtomEntry" where
  "buildEntry rt cfg p =
     (case imageHTML p of
        Inl e \<Rightarrow> Inl e
      | Inr imageTag \<Rightarrow>
          Inr \<lparr>entry_Title = titleOf rt p,
               entry_Link = \<lparr>link_Href = productURL cfg p, link_Rel = ''alternate'',
                             link_Type = []\<rparr>,
               entry_ID = stableID p,
               entry_Updated = time_Format rt (parseValidFrom rt (validFromOf p)),
               entry_Summary =
                 \<lparr>content_Type = ''text'',
                  content_Content = prod_BrandName (p_Product p) @ '' - '' @
                    prod_ProductTypeName (p_Product p) @ '' - '' @ priceInfo p\<rparr>,
               entry_Content =
                 \<lparr>content_Type = ''html'', content_Content = contentOf cfg p imageTag\<rparr>\<rparr>)"

fun buildEntries ::
  "Runtime \<Rightarrow> Config \<Rightarrow> Product list \<Rightarrow> AtomEntry list \<Rightarrow> panic + AtomEntry list" where
  "buildEntries rt cfg [] entries = Inr entries"
| "buildEntries rt cfg (p # ps) entries =
     (case buildEntry rt cfg p of
        Inl e \<Rightarrow> Inl e
      | Inr entry \<Rightarrow> buildEntries rt cfg ps (entries @ [entry]))"

definition fixIcon :: "string \<Rightarrow> panic + string" where
  "fixIcon iconURL =
     (if 2 < length iconURL then
        (case go_slice_to iconURL 2 of
           Inl e \<Rightarrow> Inl e
         | Inr head \<Rightarrow> Inr (if head = ''//'' then ''https:'' @ iconURL else iconURL))
      else Inr iconURL)"

definition zeroProduct :: Product where
  "zeroProduct =
     \<lparr>p_Product = \<lparr>prod_ID = [], prod_ProductID = 0, prod_Name = [], prod_NameProperties = [],
        prod_ProductTypeName = [], prod_BrandName = [], prod_AverageRating = Finite 0,
        prod_TotalRatings = 0, prod_Images = []\<rparr>,
      p_Offer = \<lparr>offer_Price = \<lparr>price_AmountInclusive = Finite 0, price_Currency = []\<rparr>,
        offer_SalesInformation = \<lparr>sales_NumberOfItems = 0, sales_NumberOfItemsSold = 0,
          sales_ValidFrom = []\<rparr>,
        offer_InsteadOfPrice = None\<rparr>\<rparr>"

text \<open>\<open>copy(dst, src)\<close> overwrites the first \<open>min (len dst) (len src)\<close> elements of \<open>dst\<close>.\<close>

definition go_copy :: "'a list \<Rightarrow> 'a list \<Rightarrow> 'a list" where
  "go_copy dst src =
     take (min (length dst) (length src)) src @ drop (min (length dst) (length src)) dst"

text \<open>
  \<open>buildAtomFeed\<close>, with the global \<open>config\<close>, the reading \<open>now\<close> of the clock and the
  store made explicit. It allocates the array of \<open>products\<close> at the next free address,
  copies the calendar's products into it and sorts it in place.
\<close>

definition buildAtomFeed ::
  "Runtime \<Rightarrow> Config \<Rightarrow> Time \<Rightarrow> heap \<Rightarrow> AdventCalendar \<Rightarrow> (panic + AtomFeed) \<times> heap" where
  "buildAtomFeed rt cfg now h calendar =
     (let src = slice_elems h (cal_Products calendar);
          products = length h;
          h1 = h @ [replicate (length src) zeroProduct];
          h2 = h1[products := go_copy (h1 ! products) src];
          h3 = h2[products := sort_Slice rt (lessValidFrom rt) (h2 ! products)]
      in case buildEntries rt cfg (h3 ! products) [] of
           Inl e \<Rightarrow> (Inl e, h3)
         | Inr entries \<Rightarrow>
             (case fixIcon (hdr_ImageURL (cal_Header calendar)) of
                Inl e \<Rightarrow> (Inl e, h3)
              | Inr iconURL \<Rightarrow>
                  (Inr \<lparr>feed_XMLName = ([], []),
                        feed_XMLNS = ''http://www.w3.org/2005/Atom'',
                        feed_Title = hdr_Title (cal_Header calendar) @ '' - '' @
                          store_Name (cfg_Store cfg),
                        feed_Subtitle = hdr_Description (cal_Header calendar),
                        feed_Link = \<lparr>link_Href = store_BaseURL (cfg_Store cfg) @
                                       ''/advent-calendar'',
                                     link_Rel = ''alternate'', link_Type = []\<rparr>,
                        feed_Icon = iconURL,
                        feed_Updated = time_Format rt now,
                        feed_ID = ''urn:advent-calendar:'' @ store_Name (cfg_Store cfg),
                        feed_Author = Some \<lparr>author_Name = store_Name (cfg_Store cfg),
                                            author_URI = store_BaseURL (cfg_Store cfg)\<rparr>,
                        feed_Entries = entries\<rparr>, h3)))"

text \<open>The array \<open>products\<close> after \<open>sort.Slice\<close>: the loop builds one entry from each element.\<close>

definition sortedProducts :: "Runtime \<Rightarrow> heap \<Rightarrow> AdventCalendar \<Rightarrow> Product list" where
  "sortedProducts rt h calendar =
     sort_Slice rt (lessValidFrom rt) (slice_elems h (cal_Products calendar))"

section \<open>The upstream client and the feed service\<close>

text \<open>
  What the network did to the request of \<open>fetchAdventCalendar\<close>: \<open>json.Marshal\<close>,
  \<open>http.NewRequest\<close> or \<open>client.Do\<close> returned an error, or a response came back with a
  status code, a body and the result of decoding that body (calendars with their products).
\<close>

record Decoded =
  dec_CurrentDate :: string
  dec_Header :: Header
  dec_Products :: "Product list option"

datatype upstream =
    MarshalError string
  | RequestError string
  | TransportError string
  | Response go_int string "string + Decoded list"

text \<open>Decoding allocates the array of the products at the next free address.\<close>

definition fetchAdventCalendar :: "upstream \<Rightarrow> heap \<Rightarrow> (string + AdventCalendar) \<times> heap" where
  "fetchAdventCalendar up h =
     (case up of
        MarshalError err \<Rightarrow> (Inl (''failed to marshal request: '' @ err), h)
      | RequestError err \<Rightarrow> (Inl (''failed to create request: '' @ err), h)
      | TransportError err \<Rightarrow> (Inl (''failed to fetch data: '' @ err), h)
      | Response status body decoded \<Rightarrow>
          if status \<noteq> 200
          then (Inl (''API returned status '' @ fmt_d status @ '': '' @ body), h)
          else (case decoded of
                  Inl err \<Rightarrow> (Inl (''failed to decode response: '' @ err), h)
                | Inr [] \<Rightarrow> (Inl ''empty response from API'', h)
                | Inr (d # _) \<Rightarrow>
                    (case dec_Products d of
                       None \<Rightarrow>
                         (Inr \<lparr>cal_CurrentDate = dec_CurrentDate d, cal_Header = dec_Header d,
                               cal_Products = None\<rparr>, h)
                     | Some ps \<Rightarrow>
                         (Inr \<lparr>cal_CurrentDate = dec_CurrentDate d, cal_Header = dec_Header d,
                               cal_Products = Some (length h)\<rparr>, h @ [ps]))))"

text \<open>
  The state \<open>getFeed\<close> works on: the global cache, the store, the number of requests sent
  upstream and the lines logged.
\<close>

record State =
  st_cache :: Cache
  st_heap :: heap
  st_fetches :: nat
  st_log :: "string list"

datatype failure = Failed string | Panicked panic

text \<open>
  \<open>getFeed\<close>, with the three readings of the clock (in \<open>cache.Get\<close>, \<open>buildAtomFeed\<close>
  and \<open>cache.Set\<close>) and the behaviour of the network made explicit.
\<close>

definition getFeed ::
  "Runtime \<Rightarrow> Config \<Rightarrow> Time \<Rightarrow> Time \<Rightarrow> Time \<Rightarrow> upstream \<Rightarrow> State \<Rightarrow>
     (failure + AtomFeed) \<times> State" where
  "getFeed rt cfg tGet tBuild tSet up s =
     (case Cache_Get tGet (st_cache s) of
        (Some cached, c) \<Rightarrow>
          (Inr cached, s\<lparr>st_cache := c, st_log := st_log s @ [''Serving from cache'']\<rparr>)
      | (None, c) \<Rightarrow>
          (let s1 = s\<lparr>st_cache := c, st_log := st_log s @ [''Fetching fresh data from API''],
                      st_fetches := st_fetches s + 1\<rparr>
           in case fetchAdventCalendar up (st_heap s1) of
                (Inl err, h1) \<Rightarrow> (Inl (Failed err), s1\<lparr>st_heap := h1\<rparr>)
              | (Inr calendar, h1) \<Rightarrow>
                  (case buildAtomFeed rt cfg tBuild h1 calendar of
                     (Inl pn, h2) \<Rightarrow> (Inl (Panicked pn), s1\<lparr>st_heap := h2\<rparr>)
                   | (Inr feed, h2) \<Rightarrow>
                       (Inr feed,
                        s1\<lparr>st_heap := h2, st_cache := Cache_Set tSet feed (st_cache s1)\<rparr>))))"

section \<open>A runtime for the examples\<close>

text \<open>
  \<open>sort.Slice\<close> sorts a short slice by insertion (the slices of the examples have at
  most two elements): each element moves left past the elements it is less than.
  \<open>insertLeft\<close> works on the sorted prefix in reverse.
\<close>

fun insertLeft :: "('a \<Rightarrow> 'a \<Rightarrow> bool) \<Rightarrow> 'a \<Rightarrow> 'a list \<Rightarrow> 'a list" where
  "insertLeft lt x [] = [x]"
| "insertLeft lt x (y # ys) = (if lt x y then y # insertLeft lt x ys else x # y # ys)"

definition insertionSort :: "('a \<Rightarrow> 'a \<Rightarrow> bool) \<Rightarrow> 'a list \<Rightarrow> 'a list" where
  "insertionSort lt xs = rev (foldl (\<lambda>rs x. insertLeft lt x rs) [] xs)"

text \<open>
  The timestamps of the examples, as \<open>time.Parse\<close> reads them: midnight UTC of
  December 1 and of December 2, 2024. The example runtime parses these two strings and
  rejects every other one; it formats these two instants and the zero Time.
\<close>

definition dec1 :: Time where
  "dec1 = \<lparr>instant = 63868608000000000000, zoneOffset = 0\<rparr>"

definition dec2 :: Time where
  "dec2 = \<lparr>instant = 63868694400000000000, zoneOffset = 0\<rparr>"

definition exampleParse :: "string \<Rightarrow> Time option" where
  "exampleParse s =
     (if s = ''2024-12-01T00:00:00Z'' then Some dec1
      else if s = ''2024-12-02T00:00:00Z'' then Some dec2
      else None)"

definition exampleFormat :: "Time \<Rightarrow> string" where
  "exampleFormat t =
     (if t = dec1 then ''2024-12-01T00:00:00Z''
      else if t = dec2 then ''2024-12-02T00:00:00Z''
      else if t = zeroTime then ''0001-01-01T00:00:00Z''
      else [])"

definition exampleRuntime :: Runtime where
  "exampleRuntime =
     \<lparr>time_Parse = exampleParse, time_Format = exampleFormat, sort_Slice = insertionSort,
      conv_undefined = (\<lambda>_. - (2 ^ 63))\<rparr>"

definition exampleConfig :: Config where
  "exampleConfig =
     \<lparr>cfg_Store = \<lparr>store_Name = ''Galaxus'',
        store_APIURL = ''https://www.galaxus.ch/api/graphql/get-adventcalendar'',
        store_BaseURL = ''https://www.galaxus.ch'', store_PortalID = ''22''\<rparr>,
      cfg_UserAgent = ''Mozilla/5.0'', cfg_Port = 8080, cfg_CacheDuration = 300000000000\<rparr>"

text \<open>
  The product of the end-to-end scenario: Acme's Widget at 8.00 CHF instead of 10.00,
  20 of 50 items sold; \<open>exampleProduct i v\<close> has the numeric id \<open>i\<close> and the valid-from
  string \<open>v\<close>.
\<close>

definition exampleProduct :: "go_int \<Rightarrow> string \<Rightarrow> Product" where
  "exampleProduct i v =
     \<lparr>p_Product = \<lparr>prod_ID = ''p'', prod_ProductID = i, prod_Name = ''Widget'',
        prod_NameProperties = [], prod_ProductTypeName = ''Gadget'', prod_BrandName = ''Acme'',
        prod_AverageRating = Finite 0, prod_TotalRatings = 0, prod_Images = []\<rparr>,
      p_Offer = \<lparr>offer_Price = \<lparr>price_AmountInclusive = Finite 8, price_Currency = ''CHF''\<rparr>,
        offer_SalesInformation = \<lparr>sales_NumberOfItems = 50, sales_NumberOfItemsSold = 20,
          sales_ValidFrom = v\<rparr>,
        offer_InsteadOfPrice = Some \<lparr>instead_Price = \<lparr>iprice_AmountInclusive = Finite 10\<rparr>\<rparr>\<rparr>\<rparr>"

definition exampleCalendar :: "slice \<Rightarrow> AdventCalendar" where
  "exampleCalendar ps =
     \<lparr>cal_CurrentDate = ''2024-12-02'',
      cal_Header = \<lparr>hdr_Title = ''Advent'', hdr_Description = ''Deals'',
        hdr_ImageURL = ''//example.com/x.png''\<rparr>,
      cal_Products = ps\<rparr>"

definition exampleFeed :: AtomFeed where
  "exampleFeed =
     \<lparr>feed_XMLName = ([], []), feed_XMLNS = ''http://www.w3.org/2005/Atom'',
      feed_Title = ''Advent - Galaxus'', feed_Subtitle = ''Deals'',
      feed_Link = \<lparr>link_Href = ''https://www.galaxus.ch/advent-calendar'',
                   link_Rel = ''alternate'', link_Type = []\<rparr>,
      feed_Icon = ''https://example.com/x.png'', feed_Updated = ''2024-12-01T00:00:00Z'',
      feed_ID = ''urn:advent-calendar:Galaxus'',
      feed_Author = Some \<lparr>author_Name = ''Galaxus'', author_URI = ''https://www.galaxus.ch''\<rparr>,
      feed_Entries = []\<rparr>"

text \<open>A cache filled on December 1, 2024, with a TTL of five minutes.\<close>

definition exampleCache :: Cache where
  "exampleCache =
     \<lparr>cache_data = Some exampleFeed, cache_fetchedAt = dec1, cache_duration = 300000000000\<rparr>"

definition exampleState :: "Cache \<Rightarrow> State" where
  "exampleState c = \<lparr>st_cache = c, st_heap = [], st_fetches = 0, st_log = []\<rparr>"

text \<open>A decoded response without products, and calendars that differ in the image URL.\<close>

definition exampleDecoded :: Decoded where
  "exampleDecoded =
     \<lparr>dec_CurrentDate = ''2024-12-02'',
      dec_Header = \<lparr>hdr_Title = ''Advent'', hdr_Description = ''Deals'',
        hdr_ImageURL = ''//example.com/x.png''\<rparr>,
      dec_Products = None\<rparr>"

definition iconCalendar :: "string \<Rightarrow> AdventCalendar" where
  "iconCalendar u =
     \<lparr>cal_CurrentDate = ''2024-12-02'',
      cal_Header = \<lparr>hdr_Title = ''Advent'', hdr_Description = ''Deals'', hdr_ImageURL = u\<rparr>,
      cal_Products = None\<rparr>"

text \<open>
  Three products: \<open>productA\<close> and \<open>productC\<close> are valid from December 1, \<open>productB\<close>
  from December 2.
\<close>

definition productA :: Product where
  "productA = exampleProduct 1 ''2024-12-01T00:00:00Z''"

definition productB :: Product where
  "productB = exampleProduct 2 ''2024-12-02T00:00:00Z''"

definition productC :: Product where
  "productC = exampleProduct 3 ''2024-12-01T00:00:00Z''"

text \<open>The scenario's product at the price \<open>c\<close> instead of \<open>o'\<close>.\<close>

definition pricedProduct :: "rat \<Rightarrow> rat \<Rightarrow> Product" where
  "pricedProduct c o' =
     \<lparr>p_Product = \<lparr>prod_ID = ''p'', prod_ProductID = 1, prod_Name = ''Widget'',
        prod_NameProperties = [], prod_ProductTypeName = ''Gadget'', prod_BrandName = ''Acme'',
        prod_AverageRating = Finite 0, prod_TotalRatings = 0, prod_Images = []\<rparr>,
      p_Offer = \<lparr>offer_Price = \<lparr>price_AmountInclusive = Finite c, price_Currency = ''CHF''\<rparr>,
        offer_SalesInformation = \<lparr>sales_NumberOfItems = 50, sales_NumberOfItemsSold = 20,
          sales_ValidFrom = ''2024-12-01T00:00:00Z''\<rparr>,
        offer_InsteadOfPrice = Some \<lparr>instead_Price = \<lparr>iprice_AmountInclusive = Finite o'\<rparr>\<rparr>\<rparr>\<rparr>"

section \<open>The builder never panics\<close>

lemma imageHTML_total: "\<exists>s. imageHTML p = Inr s"
  by (simp add: imageHTML_def go_index_def)

lemma buildEntry_total: "\<exists>e. buildEntry rt cfg p = Inr e"
  using imageHTML_total [of p] by (auto simp: buildEntry_def)

lemma buildEntries_map:
  "buildEntries rt cfg ps entries = Inr (entries @ map (\<lambda>p. projr (buildEntry rt cfg p)) ps)"
proof (induction ps arbitrary: entries)
  case Nil
  show ?case by simp
next
  case (Cons p ps)
  obtain e where e: "buildEntry rt cfg p = Inr e"
    using buildEntry_total by blast
  show ?case by (simp add: e Cons.IH)
qed

lemma fixIcon_eq:
  "fixIcon u = Inr (if 2 < length u \<and> take 2 u = ''//'' then ''https://'' @ drop 2 u else u)"
proof (cases "2 < length u \<and> take 2 u = ''//''")
  case True
  then have "''//'' @ drop 2 u = u"
    by (metis append_take_drop_id)
  then have "''https://'' @ drop 2 u = ''https:'' @ u" by simp
  with True show ?thesis by (simp add: fixIcon_def go_slice_to_def)
next
  case False
  then show ?thesis by (auto simp add: fixIcon_def go_slice_to_def)
qed

lemma go_copy_same_length: "length dst = length src \<Longrightarrow> go_copy dst src = src"
  by (simp add: go_copy_def)

text \<open>The three updates of the store leave one new array behind the old ones.\<close>

lemma heap_steps:
  "(((h @ [replicate (length src) zeroProduct])
        [length h := go_copy ((h @ [replicate (length src) zeroProduct]) ! length h) src])
        [length h := f (((h @ [replicate (length src) zeroProduct])
        [length h := go_copy ((h @ [replicate (length src) zeroProduct]) ! length h) src]) !
          length h)])
   = h @ [f src]"
  by (simp add: go_copy_same_length)

lemma buildAtomFeed_eq:
  "buildAtomFeed rt cfg now h calendar =
     (Inr \<lparr>feed_XMLName = ([], []),
           feed_XMLNS = ''http://www.w3.org/2005/Atom'',
           feed_Title = hdr_Title (cal_Header calendar) @ '' - '' @ store_Name (cfg_Store cfg),
           feed_Subtitle = hdr_Description (cal_Header calendar),
           feed_Link = \<lparr>link_Href = store_BaseURL (cfg_Store cfg) @ ''/advent-calendar'',
                        link_Rel = ''alternate'', link_Type = []\<rparr>,
           feed_Icon = projr (fixIcon (hdr_ImageURL (cal_Header calendar))),
           feed_Updated = time_Format rt now,
           feed_ID = ''urn:advent-calendar:'' @ store_Name (cfg_Store cfg),
           feed_Author = Some \<lparr>author_Name = store_Name (cfg_Store cfg),
                               author_URI = store_BaseURL (cfg_Store cfg)\<rparr>,
           feed_Entries = map (\<lambda>p. projr (buildEntry rt cfg p)) (sortedProducts rt h calendar)\<rparr>,
      h @ [sortedProducts rt h calendar])"
  unfolding buildAtomFeed_def Let_def heap_steps sortedProducts_def
  by (simp add: buildEntries_map fixIcon_eq)

section \<open>Sorting\<close>

lemma strict_weak_lessValidFrom: "strict_weak (lessValidFrom rt)"
  by (auto simp: strict_weak_def lessValidFrom_def After_def)

lemma mset_insertLeft: "mset (insertLeft lt x ys) = add_mset x (mset ys)"
  by (induction ys) auto

lemma set_insertLeft: "set (insertLeft lt x ys) = insert x (set ys)"
  by (induction ys) auto

lemma sorted_insertLeft:
  assumes "strict_weak lt" and "sorted_wrt (\<lambda>a b. \<not> lt a b) ys"
  shows "sorted_wrt (\<lambda>a b. \<not> lt a b) (insertLeft lt x ys)"
  using assms(2)
proof (induction ys)
  case Nil
  show ?case by simp
next
  case (Cons y ys)
  have asym: "\<And>a b. lt a b \<Longrightarrow> \<not> lt b a"
    using assms(1) unfolding strict_weak_def by blast
  have ntrans: "\<And>a b c. \<not> lt a b \<Longrightarrow> \<not> lt b c \<Longrightarrow> \<not> lt a c"
    using assms(1) unfolding strict_weak_def by blast
  show ?case
  proof (cases "lt x y")
    case True
    with Cons asym show ?thesis by (auto simp: set_insertLeft)
  next
    case False
    with Cons ntrans show ?thesis by auto
  qed
qed

lemma mset_foldl_insertLeft:
  "mset (foldl (\<lambda>rs x. insertLeft lt x rs) acc xs) = mset acc + mset xs"
  by (induction xs arbitrary: acc) (auto simp: mset_insertLeft)

lemma sorted_foldl_insertLeft:
  "strict_weak lt \<Longrightarrow> sorted_wrt (\<lambda>a b. \<not> lt a b) acc \<Longrightarrow>
   sorted_wrt (\<lambda>a b. \<not> lt a b) (foldl (\<lambda>rs x. insertLeft lt x rs) acc xs)"
  by (induction xs arbitrary: acc) (auto simp: sorted_insertLeft)

lemma sort_Slice_ok_example: "sort_Slice_ok exampleRuntime"
  unfolding sort_Slice_ok_def exampleRuntime_def insertionSort_def
  by (simp add: mset_foldl_insertLeft sorted_wrt_rev sorted_foldl_insertLeft)

lemma sortedProducts_mset:
  "sort_Slice_ok rt \<Longrightarrow>
   mset (sortedProducts rt h calendar) = mset (slice_elems h (cal_Products calendar))"
  using strict_weak_lessValidFrom [of rt] by (simp add: sort_Slice_ok_def sortedProducts_def)

lemma sortedProducts_sorted:
  "sort_Slice_ok rt \<Longrightarrow>
   sorted_wrt (\<lambda>a b. \<not> lessValidFrom rt b a) (sortedProducts rt h calendar)"
  using strict_weak_lessValidFrom [of rt] by (simp add: sort_Slice_ok_def sortedProducts_def)

lemma buildAtomFeed_total: "\<exists>feed h'. buildAtomFeed rt cfg now h calendar = (Inr feed, h')"
  by (simp add: buildAtomFeed_eq)

lemma entry_ID_buildEntry:
  "buildEntry rt cfg p = Inr e \<Longrightarrow> entry_ID e = stableID p"
  by (auto simp: buildEntry_def split: sum.splits)

lemma entry_ID_projr: "entry_ID (projr (buildEntry rt cfg p)) = stableID p"
  using buildEntry_total [of rt cfg p] entry_ID_buildEntry by fastforce


lemma map_buildEntry_projr:
  "map (buildEntry rt cfg) ps = map Inr (map (\<lambda>p. projr (buildEntry rt cfg p)) ps)"
proof (induction ps)
  case Nil
  show ?case by simp
next
  case (Cons p ps)
  obtain e where "buildEntry rt cfg p = Inr e" using buildEntry_total by blast
  with Cons show ?case by simp
qed

lemma sorted_descending:
  assumes "sort_Slice_ok rt" and "i < j" and "j < length (sortedProducts rt h calendar)"
  shows "instant (parseValidFrom rt (validFromOf (sortedProducts rt h calendar ! j)))
         \<le> instant (parseValidFrom rt (validFromOf (sortedProducts rt h calendar ! i)))"
proof -
  have "\<not> lessValidFrom rt (sortedProducts rt h calendar ! j) (sortedProducts rt h calendar ! i)"
    using sortedProducts_sorted [OF assms(1), of h calendar] assms(2,3)
    by (simp add: sorted_wrt_iff_nth_less)
  then show ?thesis by (simp add: lessValidFrom_def After_def)
qed

lemma mset_pair: "mset ps = {#a, b#} \<Longrightarrow> ps = [a, b] \<or> ps = [b, a]"
proof -
  assume m: "mset ps = {#a, b#}"
  then have "length ps = 2" by (metis size_mset size_add_mset size_empty numeral_2_eq_2)
  then obtain x y where ps: "ps = [x, y]"
    by (metis (no_types, opaque_lifting) One_nat_def Suc_1 length_0_conv length_Suc_conv)
  with m show ?thesis by (auto simp: add_eq_conv_ex)
qed

section \<open>Rounding to float64\<close>

text \<open>The exponent of the binade: \<open>2 ^ ilog2 x \<le> x < 2 ^ (ilog2 x + 1)\<close>.\<close>

lemma bitlen_rat_bounds:
  assumes "0 < (p::int)"
  shows "(2::rat) powi (bitlen p - 1) \<le> of_int p \<and> (of_int p :: rat) < 2 powi (bitlen p)"
proof -
  have b1: "1 \<le> bitlen p" using assms by (auto simp: bitlen_alt_def)
  have lo: "2 ^ nat (bitlen p - 1) \<le> p" and hi: "p < 2 ^ nat (bitlen p)"
    using bitlen_bounds [OF assms] by auto
  have "(of_int (2 ^ nat (bitlen p - 1)) :: rat) \<le> of_int p"
    using lo by (simp only: of_int_le_iff)
  then have l: "(2::rat) ^ nat (bitlen p - 1) \<le> of_int p" by simp
  have "(of_int p :: rat) < of_int (2 ^ nat (bitlen p))"
    using hi by (simp only: of_int_less_iff)
  then have h: "(of_int p :: rat) < 2 ^ nat (bitlen p)" by simp
  show ?thesis using l h b1 by (simp add: power_int_def)
qed

lemma ilog2_bounds:
  assumes "0 < x"
  shows "2 powi (ilog2 x) \<le> x \<and> x < 2 powi (ilog2 x + 1)"
proof -
  obtain p q where pq: "quotient_of x = (p, q)" by (cases "quotient_of x")
  have q: "0 < q" using quotient_of_denom_pos [OF pq] .
  have x: "x = of_int p / of_int q" using quotient_of_div [OF pq] .
  have p: "0 < p" using assms q by (simp add: x zero_less_divide_iff)
  define k where "k = bitlen p - bitlen q"
  note bp = bitlen_rat_bounds [OF p] and bq = bitlen_rat_bounds [OF q]
  have qpos: "(0::rat) < of_int q" and ppos: "(0::rat) < of_int p" using p q by simp_all
  have "x < 2 powi (bitlen p) / 2 powi (bitlen q - 1)"
    unfolding x using bp bq qpos ppos
    by (intro frac_less) (auto simp: less_imp_le)
  also have "\<dots> = 2 powi (k + 1)"
    by (simp add: k_def power_int_diff [symmetric] algebra_simps)
  finally have up: "x < 2 powi (k + 1)" .
  have il: "ilog2 x = (if 2 powi k \<le> x then k else k - 1)"
    by (simp add: ilog2_def pq k_def)
  have "2 powi (bitlen p - 1) / 2 powi (bitlen q) < x"
    unfolding x using bp bq qpos ppos
    by (intro frac_less2) (auto simp: less_imp_le)
  then have low: "2 powi (k - 1) < x"
    by (simp add: k_def power_int_diff [symmetric] algebra_simps)
  show ?thesis
  proof (cases "2 powi k \<le> x")
    case True
    with up il show ?thesis by simp
  next
    case False
    with low il show ?thesis by simp
  qed
qed

lemma pow2_less_D: "(2::rat) powi m < 2 powi n \<Longrightarrow> m < n"
proof (rule ccontr)
  assume a: "(2::rat) powi m < 2 powi n" and "\<not> m < n"
  then have "n \<le> m" by simp
  then have "(2::rat) powi n \<le> 2 powi m" by (intro power_int_increasing) simp_all
  with a show False by simp
qed

lemma ilog2_unique:
  assumes "0 < x" and "2 powi k \<le> x" and "x < 2 powi (k + 1)"
  shows "ilog2 x = k"
proof -
  note b = ilog2_bounds [OF assms(1)]
  have "(2::rat) powi (ilog2 x) < 2 powi (k + 1)" using b assms(3) by simp
  then have 1: "ilog2 x < k + 1" by (rule pow2_less_D)
  have "(2::rat) powi k < 2 powi (ilog2 x + 1)" using b assms(2) by simp
  then have 2: "k < ilog2 x + 1" by (rule pow2_less_D)
  from 1 2 show ?thesis by simp
qed

text \<open>Rounding is monotone and keeps the numbers that are float64 already.\<close>

lemma rne_floor: "\<lfloor>x\<rfloor> \<le> rne x \<and> rne x \<le> \<lfloor>x\<rfloor> + 1"
  by (simp add: rne_def Let_def)

lemma rne_of_int: "rne (of_int n) = n"
  by (simp add: rne_def)

lemma rne_mono:
  assumes "x \<le> y"
  shows "rne x \<le> rne y"
proof (cases "\<lfloor>x\<rfloor> = \<lfloor>y\<rfloor>")
  case True
  then show ?thesis using assms by (auto simp: rne_def Let_def)
next
  case False
  then have "\<lfloor>x\<rfloor> < \<lfloor>y\<rfloor>" using floor_mono [OF assms] by simp
  then show ?thesis using rne_floor [of x] rne_floor [of y] by linarith
qed

lemma rne_le_int: "x \<le> of_int n \<Longrightarrow> rne x \<le> n"
  using rne_mono [of x "of_int n"] by (simp add: rne_of_int)

lemma rne_ge_int: "of_int n \<le> x \<Longrightarrow> n \<le> rne x"
  using rne_mono [of "of_int n" x] by (simp add: rne_of_int)

lemma ilog2_mono:
  assumes "0 < x" and "x \<le> y"
  shows "ilog2 x \<le> ilog2 y"
proof -
  have "0 < y" using assms by simp
  have "2 powi (ilog2 x) \<le> x" using ilog2_bounds [OF assms(1)] by simp
  also have "x \<le> y" by fact
  also have "y < 2 powi (ilog2 y + 1)" using ilog2_bounds [OF \<open>0 < y\<close>] by simp
  finally have "ilog2 x < ilog2 y + 1" by (rule pow2_less_D)
  then show ?thesis by simp
qed

lemma expo_mono: "0 < x \<Longrightarrow> x \<le> y \<Longrightarrow> expo x \<le> expo y"
  using ilog2_mono [of x y] by (simp add: expo_def)

lemma round_rat_pos: "0 < x \<Longrightarrow> round_rat x = of_int (rne (x / 2 powi expo x)) * 2 powi expo x"
  by (simp add: round_rat_def)

lemma round_rat_nonneg: "0 \<le> x \<Longrightarrow> 0 \<le> round_rat x"
proof -
  assume "0 \<le> x"
  then have "0 \<le> x / 2 powi expo x" by simp
  then have "0 \<le> rne (x / 2 powi expo x)" using rne_ge_int [of 0] by simp
  then show ?thesis by (simp add: round_rat_def)
qed

lemma round_rat_mono_pos:
  assumes "0 < x" and "x \<le> y"
  shows "round_rat x \<le> round_rat y"
proof -
  have ypos: "0 < y" using assms by simp
  have p2: "\<And>e. (0::rat) < 2 powi e" by simp
  have le: "expo x \<le> expo y" using expo_mono [OF assms] .
  show ?thesis
  proof (cases "expo x = expo y")
    case True
    have "x / 2 powi expo y \<le> y / 2 powi expo y"
      using assms(2) p2 by (simp add: divide_right_mono)
    then have "rne (x / 2 powi expo y) \<le> rne (y / 2 powi expo y)" by (rule rne_mono)
    then have "(of_int (rne (x / 2 powi expo y)) :: rat) \<le> of_int (rne (y / 2 powi expo y))"
      by simp
    then show ?thesis
      using p2 [of "expo y"]
      by (simp add: round_rat_pos assms(1) ypos True mult_right_mono)
  next
    case False
    with le have lt: "expo x < expo y" by simp
    have ax: "\<bar>x\<bar> = x" and ay: "\<bar>y\<bar> = y" using assms(1) ypos by simp_all
    have ey: "expo y = ilog2 y - 52" and ex: "ilog2 x - 52 \<le> expo x"
      using lt by (auto simp: expo_def ax ay)
    \<comment> \<open>the smaller number rounds to at most the next power of two\<close>
    have "x < 2 powi (ilog2 x + 1)" using ilog2_bounds [OF assms(1)] by simp
    also have "\<dots> \<le> 2 powi (expo x + 53)"
      using ex by (intro power_int_increasing) simp_all
    finally have "x < 2 powi (expo x + 53)" .
    then have "x / 2 powi expo x < 2 powi (expo x + 53) / 2 powi expo x"
      using p2 by (simp add: divide_strict_right_mono)
    also have "\<dots> = 2 ^ 53" by (simp add: power_int_add)
    finally have "x / 2 powi expo x \<le> of_int (2 ^ 53)" by simp
    then have "rne (x / 2 powi expo x) \<le> 2 ^ 53" by (rule rne_le_int)
    then have "(of_int (rne (x / 2 powi expo x)) :: rat) \<le> of_int (2 ^ 53)"
      by (simp only: of_int_le_iff)
    then have "round_rat x \<le> 2 ^ 53 * 2 powi expo x"
      using p2 [of "expo x"] by (simp add: round_rat_pos assms(1) mult_right_mono)
    also have "\<dots> = 2 powi (expo x + 53)" by (simp add: power_int_add)
    also have "\<dots> \<le> 2 powi (expo y + 52)"
      using lt by (intro power_int_increasing) simp_all
    finally have upper: "round_rat x \<le> 2 powi (expo y + 52)" .
    \<comment> \<open>the larger number rounds to at least the power of two below it\<close>
    have "2 powi (expo y + 52) \<le> y"
      using ilog2_bounds [OF ypos] by (simp add: ey)
    then have "2 powi (expo y + 52) / 2 powi expo y \<le> y / 2 powi expo y"
      using p2 by (simp add: divide_right_mono)
    moreover have "(2::rat) powi (expo y + 52) / 2 powi expo y = 2 ^ 52"
      by (simp add: power_int_add)
    ultimately have "of_int (2 ^ 52) \<le> y / 2 powi expo y" by simp
    then have "2 ^ 52 \<le> rne (y / 2 powi expo y)" by (rule rne_ge_int)
    then have "(of_int (2 ^ 52) :: rat) \<le> of_int (rne (y / 2 powi expo y))"
      by (simp only: of_int_le_iff)
    then have "2 ^ 52 * 2 powi expo y \<le> round_rat y"
      using p2 [of "expo y"] by (simp add: round_rat_pos ypos mult_right_mono)
    moreover have "(2::rat) ^ 52 * 2 powi expo y = 2 powi (expo y + 52)"
      by (simp add: power_int_add)
    ultimately have "2 powi (expo y + 52) \<le> round_rat y" by simp
    with upper show ?thesis by simp
  qed
qed

lemma round_rat_mono: "0 \<le> x \<Longrightarrow> x \<le> y \<Longrightarrow> round_rat x \<le> round_rat y"
proof (cases "x = 0")
  case True
  assume "0 \<le> x" "x \<le> y"
  then have "0 \<le> round_rat y" by (intro round_rat_nonneg) simp
  with True show ?thesis by (simp add: round_rat_def)
next
  case False
  assume "0 \<le> x" "x \<le> y"
  with False show ?thesis by (intro round_rat_mono_pos) simp_all
qed

lemma is_f64_D: "is_f64 b \<Longrightarrow> round_rat b = b \<and> b < 2 ^ 1024"
  by (auto simp: is_f64_def pack_def Let_def split: if_splits)

lemma pack_range:
  assumes "0 \<le> x" and "x \<le> b" and "is_f64 b"
  shows "\<exists>r. pack x = Finite r \<and> 0 \<le> r \<and> r \<le> b"
proof -
  have "round_rat x \<le> round_rat b" using assms(1,2) by (rule round_rat_mono)
  then have up: "round_rat x \<le> b" and lt: "round_rat x < 2 ^ 1024"
    using is_f64_D [OF assms(3)] by simp_all
  have lo: "0 \<le> round_rat x" using assms(1) by (rule round_rat_nonneg)
  have "pack x = Finite (round_rat x)"
    using lt lo assms(1) by (auto simp: pack_def Let_def)
  with up lo show ?thesis by simp
qed

lemma floor_rat_numeral: "\<lfloor>(numeral a :: rat) / numeral b\<rfloor> = numeral a div numeral b"
  using floor_divide_of_int_eq [of "numeral a" "numeral b", where ?'a = rat] by simp

lemma round_rat_eval:
  assumes "0 < x" and "2 powi k \<le> x" and "x < 2 powi (k + 1)" and "e = max (k - 52) (- 1074)"
  shows "round_rat x = of_int (rne (x / 2 powi e)) * 2 powi e"
proof -
  have "ilog2 x = k" using assms(1-3) by (rule ilog2_unique)
  then have "expo x = e" using assms(1,4) by (simp add: expo_def)
  then show ?thesis using assms(1) by (simp add: round_rat_pos)
qed

lemma pack_pos: "0 < x \<Longrightarrow> round_rat x = r \<Longrightarrow> r < 2 ^ 1024 \<Longrightarrow> pack x = Finite r"
  using round_rat_nonneg [of x] by (auto simp: pack_def Let_def)

lemma round_1: "round_rat 1 = 1"
  using round_rat_eval [of 1 0 "- 52"] by (simp add: rne_def Let_def floor_rat_numeral)

lemma round_2: "round_rat 2 = 2"
  using round_rat_eval [of 2 1 "- 51"] by (simp add: rne_def Let_def floor_rat_numeral)

lemma round_8: "round_rat 8 = 8"
  using round_rat_eval [of 8 3 "- 49"] by (simp add: rne_def Let_def floor_rat_numeral)

lemma round_10: "round_rat 10 = 10"
  using round_rat_eval [of 10 3 "- 49"] by (simp add: rne_def Let_def floor_rat_numeral)

lemma round_20: "round_rat 20 = 20"
  using round_rat_eval [of 20 4 "- 48"] by (simp add: rne_def Let_def floor_rat_numeral)

lemma round_29: "round_rat 29 = 29"
  using round_rat_eval [of 29 4 "- 48"] by (simp add: rne_def Let_def floor_rat_numeral)

lemma round_71: "round_rat 71 = 71"
  using round_rat_eval [of 71 6 "- 46"] by (simp add: rne_def Let_def floor_rat_numeral)

lemma round_100: "round_rat 100 = 100"
  using round_rat_eval [of 100 6 "- 46"] by (simp add: rne_def Let_def floor_rat_numeral)

lemma round_fifth: "round_rat (1/5) = 3602879701896397 / 18014398509481984"
  using round_rat_eval [of "1/5" "- 3" "- 55"] by (simp add: rne_def Let_def floor_rat_numeral)

lemma round_fifth_100: "round_rat (90071992547409925 / 4503599627370496) = 20"
  using round_rat_eval [of "90071992547409925 / 4503599627370496" 4 "- 48"] by (simp add: rne_def Let_def floor_rat_numeral)

lemma round_29_100: "round_rat (29/100) = 5224175567749775 / 18014398509481984"
  using round_rat_eval [of "29/100" "- 2" "- 54"] by (simp add: rne_def Let_def floor_rat_numeral)

lemma round_29_100_100:
  "round_rat (130604389193744375 / 4503599627370496) = 8162774324609023 / 281474976710656"
  using round_rat_eval [of "130604389193744375 / 4503599627370496" 4 "- 48"]
  by (simp add: rne_def Let_def floor_rat_numeral)

lemma is_f64_examples: "is_f64 0" "is_f64 1" "is_f64 8" "is_f64 10" "is_f64 71" "is_f64 100"
  by (simp_all add: is_f64_def pack_pos round_1 round_8 round_10 round_71 round_100)
     (simp add: pack_def round_rat_def)

lemma sless_20: "0 <s (20 :: 64 word)"
  by (simp add: word_sless_alt)

lemma discount_8_10: "calculateDiscount undef (Finite 8) (Finite 10) = 20"
proof -
  have "f64_sub (Finite 10) (Finite 8) = Finite 2"
    by (simp add: f64_sub_def pack_pos round_2)
  moreover have "f64_div (Finite 2) (Finite 10) = Finite (3602879701896397 / 18014398509481984)"
    by (simp add: f64_div_def pack_pos round_fifth)
  moreover have "f64_mul (Finite (3602879701896397 / 18014398509481984)) (Finite 100) = Finite 20"
    by (simp add: f64_mul_def pack_pos round_fifth_100)
  ultimately show ?thesis
    by (simp add: calculateDiscount_def f64_le_def f64_ge_def f64_to_int_def trunc_def
        floor_rat_numeral)
qed

lemma discount_0_10: "calculateDiscount undef (Finite 0) (Finite 10) = 100"
proof -
  have "f64_sub (Finite 10) (Finite 0) = Finite 10"
    by (simp add: f64_sub_def pack_pos round_10)
  moreover have "f64_div (Finite 10) (Finite 10) = Finite 1"
    by (simp add: f64_div_def pack_pos round_1)
  moreover have "f64_mul (Finite 1) (Finite 100) = Finite 100"
    by (simp add: f64_mul_def pack_pos round_100)
  ultimately show ?thesis
    by (simp add: calculateDiscount_def f64_le_def f64_ge_def f64_to_int_def trunc_def
        floor_rat_numeral)
qed

lemma discount_71_100: "calculateDiscount undef (Finite 71) (Finite 100) = 28"
proof -
  have "f64_sub (Finite 100) (Finite 71) = Finite 29"
    by (simp add: f64_sub_def pack_pos round_29)
  moreover have "f64_div (Finite 29) (Finite 100) = Finite (5224175567749775 / 18014398509481984)"
    by (simp add: f64_div_def pack_pos round_29_100)
  moreover have "f64_mul (Finite (5224175567749775 / 18014398509481984)) (Finite 100)
      = Finite (8162774324609023 / 281474976710656)"
    by (simp add: f64_mul_def pack_pos round_29_100_100)
  ultimately show ?thesis
    by (simp add: calculateDiscount_def f64_le_def f64_ge_def f64_to_int_def trunc_def
        floor_rat_numeral)
qed

section \<open>The discount\<close>

lemma sub_range:
  assumes "is_f64 o'" and "0 \<le> c" and "c < o'"
  shows "\<exists>r. f64_sub (Finite o') (Finite c) = Finite r \<and> 0 \<le> r \<and> r \<le> o'"
proof -
  have "\<exists>r. pack (o' - c) = Finite r \<and> 0 \<le> r \<and> r \<le> o'"
    using assms by (intro pack_range) simp_all
  then show ?thesis using assms by (simp add: f64_sub_def)
qed

lemma div_range:
  assumes "0 \<le> r" and "r \<le> o'" and "0 < o'"
  shows "\<exists>q. f64_div (Finite r) (Finite o') = Finite q \<and> 0 \<le> q \<and> q \<le> 1"
proof (cases "r = 0")
  case True
  then show ?thesis using assms by (simp add: f64_div_def)
next
  case False
  have "\<exists>q. pack (r / o') = Finite q \<and> 0 \<le> q \<and> q \<le> 1"
    using assms is_f64_examples(2) by (intro pack_range) simp_all
  then show ?thesis using assms False by (simp add: f64_div_def)
qed

lemma mul_range:
  assumes "0 \<le> q" and "q \<le> 1"
  shows "\<exists>r. f64_mul (Finite q) (Finite 100) = Finite r \<and> 0 \<le> r \<and> r \<le> 100"
proof (cases "q = 0")
  case True
  then show ?thesis by (simp add: f64_mul_def)
next
  case False
  have "\<exists>r. pack (q * 100) = Finite r \<and> 0 \<le> r \<and> r \<le> 100"
    using assms is_f64_examples(6) by (intro pack_range) simp_all
  then show ?thesis using False by (simp add: f64_mul_def)
qed

lemma to_int_range:
  assumes "0 \<le> r" and "r \<le> 100"
  shows "f64_to_int undef (Finite r) = word_of_int \<lfloor>r\<rfloor> \<and>
         sint (f64_to_int undef (Finite r)) = \<lfloor>r\<rfloor> \<and> 0 \<le> \<lfloor>r\<rfloor> \<and> \<lfloor>r\<rfloor> \<le> 100"
proof -
  have lo: "0 \<le> \<lfloor>r\<rfloor>" using assms(1) by simp
  have hi: "\<lfloor>r\<rfloor> \<le> 100" using assms(2) by (simp add: floor_le_iff)
  have t: "trunc r = \<lfloor>r\<rfloor>" using assms(1) by (simp add: trunc_def)
  have c: "f64_to_int undef (Finite r) = word_of_int \<lfloor>r\<rfloor>"
    using lo hi by (simp add: f64_to_int_def t)
  have "sint (word_of_int \<lfloor>r\<rfloor> :: 64 word) = \<lfloor>r\<rfloor>"
    using lo hi by (simp add: sint_sbintrunc' signed_take_bit_int_eq_self)
  with c lo hi show ?thesis by simp
qed

text \<open>A negative current price: each step is at least what it is at the price 0.\<close>

lemma pack_lower:
  assumes "0 \<le> b" and "b \<le> x" and "is_f64 b"
  shows "pack x = PosInf \<or> (\<exists>r. pack x = Finite r \<and> b \<le> r)"
proof -
  have "round_rat b \<le> round_rat x" using assms(1,2) by (rule round_rat_mono)
  then have lo: "b \<le> round_rat x" using is_f64_D [OF assms(3)] by simp
  show ?thesis
  proof (cases "2 ^ 1024 \<le> round_rat x")
    case True
    then show ?thesis by (simp add: pack_def)
  next
    case False
    then have "pack x = Finite (round_rat x)"
      using lo assms(1,2) by (auto simp: pack_def Let_def)
    with lo show ?thesis by simp
  qed
qed

lemma sub_lower:
  assumes "is_f64 o'" and "c < 0" and "0 < o'"
  shows "f64_sub (Finite o') (Finite c) = PosInf \<or>
         (\<exists>r. f64_sub (Finite o') (Finite c) = Finite r \<and> o' \<le> r)"
proof -
  have "pack (o' - c) = PosInf \<or> (\<exists>r. pack (o' - c) = Finite r \<and> o' \<le> r)"
    using assms by (intro pack_lower) simp_all
  then show ?thesis using assms by (simp add: f64_sub_def)
qed

lemma div_lower:
  assumes "o' \<le> r" and "0 < o'"
  shows "f64_div (Finite r) (Finite o') = PosInf \<or>
         (\<exists>q. f64_div (Finite r) (Finite o') = Finite q \<and> 1 \<le> q)"
proof -
  have "pack (r / o') = PosInf \<or> (\<exists>q. pack (r / o') = Finite q \<and> 1 \<le> q)"
    using assms is_f64_examples(2) by (intro pack_lower) simp_all
  then show ?thesis using assms by (simp add: f64_div_def)
qed

lemma mul_lower:
  assumes "1 \<le> q"
  shows "f64_mul (Finite q) (Finite 100) = PosInf \<or>
         (\<exists>r. f64_mul (Finite q) (Finite 100) = Finite r \<and> 100 \<le> r)"
proof -
  have "pack (q * 100) = PosInf \<or> (\<exists>r. pack (q * 100) = Finite r \<and> 100 \<le> r)"
    using assms is_f64_examples(6) by (intro pack_lower) simp_all
  then show ?thesis using assms by (simp add: f64_mul_def)
qed

lemma value_lower:
  assumes "is_f64 o'" and "c < 0" and "0 < o'"
  shows "f64_mul (f64_div (f64_sub (Finite o') (Finite c)) (Finite o')) (Finite 100) = PosInf \<or>
         (\<exists>r. f64_mul (f64_div (f64_sub (Finite o') (Finite c)) (Finite o')) (Finite 100)
            = Finite r \<and> 100 \<le> r)"
proof -
  have inf_div: "f64_div PosInf (Finite o') = PosInf"
    using assms(3) by (simp add: f64_div_def)
  have inf_mul: "f64_mul PosInf (Finite 100) = PosInf"
    by (simp add: f64_mul_def)
  show ?thesis
    using sub_lower [OF assms]
  proof
    assume "f64_sub (Finite o') (Finite c) = PosInf"
    then show ?thesis by (simp add: inf_div inf_mul)
  next
    assume "\<exists>r. f64_sub (Finite o') (Finite c) = Finite r \<and> o' \<le> r"
    then obtain r1 where r1: "f64_sub (Finite o') (Finite c) = Finite r1" "o' \<le> r1" by blast
    show ?thesis
      using div_lower [OF r1(2) assms(3)]
    proof
      assume "f64_div (Finite r1) (Finite o') = PosInf"
      then show ?thesis by (simp add: r1(1) inf_mul)
    next
      assume "\<exists>q. f64_div (Finite r1) (Finite o') = Finite q \<and> 1 \<le> q"
      then obtain q where q: "f64_div (Finite r1) (Finite o') = Finite q" "1 \<le> q" by blast
      show ?thesis using mul_lower [OF q(2)] by (simp add: r1(1) q(1))
    qed
  qed
qed

lemma to_int_fits:
  assumes "- (2 ^ 63) \<le> trunc r" and "trunc r < 2 ^ 63"
  shows "f64_to_int undef (Finite r) = word_of_int (trunc r) \<and>
         sint (f64_to_int undef (Finite r)) = trunc r"
proof -
  have "sint (word_of_int (trunc r) :: 64 word) = trunc r"
    using assms by (simp add: sint_sbintrunc' signed_take_bit_int_eq_self)
  then show ?thesis using assms by (simp add: f64_to_int_def)
qed

lemma to_int_unfit:
  "\<not> (- (2 ^ 63) \<le> trunc r \<and> trunc r < 2 ^ 63) \<Longrightarrow>
   f64_to_int undef (Finite r) = undef (Finite r)"
  by (auto simp: f64_to_int_def)

lemma round_15: "round_rat 15 = 15"
  using round_rat_eval [of 15 3 "- 49"] by (simp add: rne_def Let_def floor_rat_numeral)

lemma round_3_2: "round_rat (3 / 2) = 3 / 2"
  using round_rat_eval [of "3 / 2" 0 "- 52"] by (simp add: rne_def Let_def floor_rat_numeral)

lemma round_150: "round_rat 150 = 150"
  using round_rat_eval [of 150 7 "- 45"] by (simp add: rne_def Let_def floor_rat_numeral)

lemma value_m5_10:
  "f64_mul (f64_div (f64_sub (Finite 10) (Finite (- 5))) (Finite 10)) (Finite 100) = Finite 150"
proof -
  have "f64_sub (Finite 10) (Finite (- 5)) = Finite 15"
    by (simp add: f64_sub_def pack_pos round_15)
  moreover have "f64_div (Finite 15) (Finite 10) = Finite (3 / 2)"
    by (simp add: f64_div_def pack_pos round_3_2)
  moreover have "f64_mul (Finite (3 / 2)) (Finite 100) = Finite 150"
    by (simp add: f64_mul_def pack_pos round_150)
  ultimately show ?thesis by simp
qed

lemma round_big1: "round_rat 1267650600228229401496703205386 = 1267650600228229401496703205376"
  using round_rat_eval [of 1267650600228229401496703205386 100 48] by (simp add: rne_def Let_def floor_rat_numeral)

lemma round_big2: "round_rat (633825300114114700748351602688 / 5) = 126765060022822947186544738304"
  using round_rat_eval [of "633825300114114700748351602688 / 5" 96 44] by (simp add: rne_def Let_def floor_rat_numeral)

lemma round_big3: "round_rat 12676506002282294718654473830400 = 12676506002282294014967032053760"
  using round_rat_eval [of 12676506002282294718654473830400 103 51]
  by (simp add: rne_def Let_def floor_rat_numeral)

lemma value_big:
  "f64_mul (f64_div (f64_sub (Finite 10) (Finite (- 1267650600228229401496703205376))) (Finite 10)) (Finite 100)
     = Finite 12676506002282294014967032053760"
proof -
  have "f64_sub (Finite 10) (Finite (- 1267650600228229401496703205376)) = Finite 1267650600228229401496703205376"
    by (simp add: f64_sub_def pack_pos round_big1)
  moreover have "f64_div (Finite 1267650600228229401496703205376) (Finite 10) = Finite 126765060022822947186544738304"
    by (simp add: f64_div_def pack_pos round_big2)
  moreover have "f64_mul (Finite 126765060022822947186544738304) (Finite 100) = Finite 12676506002282294014967032053760"
    by (simp add: f64_mul_def pack_pos round_big3)
  ultimately show ?thesis by simp
qed

lemma discount_range:
  assumes "is_f64 o'" and "0 \<le> c" and "c < o'"
  shows "\<exists>r. f64_mul (f64_div (f64_sub (Finite o') (Finite c)) (Finite o')) (Finite 100) = Finite r \<and>
           0 \<le> r \<and> r \<le> 100 \<and>
           sint (calculateDiscount undef (Finite c) (Finite o')) = \<lfloor>r\<rfloor> \<and>
           0 \<le> sint (calculateDiscount undef (Finite c) (Finite o')) \<and>
           sint (calculateDiscount undef (Finite c) (Finite o')) \<le> 100"
proof -
  have opos: "0 < o'" using assms(2,3) by simp
  obtain r1 where r1: "f64_sub (Finite o') (Finite c) = Finite r1" "0 \<le> r1" "r1 \<le> o'"
    using sub_range [OF assms] by blast
  obtain q where q: "f64_div (Finite r1) (Finite o') = Finite q" "0 \<le> q" "q \<le> 1"
    using div_range [OF r1(2,3) opos] by blast
  obtain r where r: "f64_mul (Finite q) (Finite 100) = Finite r" "0 \<le> r" "r \<le> 100"
    using mul_range [OF q(2,3)] by blast
  have guard: "\<not> (f64_le (Finite o') (Finite 0) \<or> f64_ge (Finite c) (Finite o'))"
    using opos assms(3) by (simp add: f64_le_def f64_ge_def)
  have "calculateDiscount undef (Finite c) (Finite o') = f64_to_int undef (Finite r)"
    using guard by (simp add: calculateDiscount_def r1(1) q(1) r(1))
  with to_int_range [OF r(2,3), of undef] r1(1) q(1) r show ?thesis by auto
qed

lemma discount_negative:
  assumes "is_f64 o'" and "c < 0" and "0 < o'"
  shows "f64_mul (f64_div (f64_sub (Finite o') (Finite c)) (Finite o')) (Finite 100) = PosInf \<or>
         (\<exists>v. f64_mul (f64_div (f64_sub (Finite o') (Finite c)) (Finite o')) (Finite 100)
            = Finite v \<and> 100 \<le> v \<and>
            (\<lfloor>v\<rfloor> < 2 ^ 63 \<longrightarrow>
               sint (calculateDiscount undef (Finite c) (Finite o')) = \<lfloor>v\<rfloor>))"
proof -
  have guard: "\<not> (f64_le (Finite o') (Finite 0) \<or> f64_ge (Finite c) (Finite o'))"
    using assms(2,3) by (simp add: f64_le_def f64_ge_def)
  have eq: "calculateDiscount undef (Finite c) (Finite o') = f64_to_int undef
      (f64_mul (f64_div (f64_sub (Finite o') (Finite c)) (Finite o')) (Finite 100))"
    using guard by (simp add: calculateDiscount_def)
  show ?thesis
    using value_lower [OF assms]
  proof
    assume "f64_mul (f64_div (f64_sub (Finite o') (Finite c)) (Finite o')) (Finite 100) = PosInf"
    then show ?thesis by simp
  next
    assume "\<exists>r. f64_mul (f64_div (f64_sub (Finite o') (Finite c)) (Finite o')) (Finite 100)
        = Finite r \<and> 100 \<le> r"
    then obtain v where v: "f64_mul (f64_div (f64_sub (Finite o') (Finite c)) (Finite o'))
        (Finite 100) = Finite v" "100 \<le> v" by blast
    have t: "trunc v = \<lfloor>v\<rfloor>" using v(2) by (simp add: trunc_def)
    have nn: "0 \<le> \<lfloor>v\<rfloor>" using v(2) by simp
    have "sint (calculateDiscount undef (Finite c) (Finite o')) = \<lfloor>v\<rfloor>" if "\<lfloor>v\<rfloor> < 2 ^ 63"
    proof -
      have "sint (f64_to_int undef (Finite v)) = trunc v"
        using that nn by (intro to_int_fits [THEN conjunct2]) (simp_all add: t)
      then show ?thesis by (simp add: eq v(1) t)
    qed
    with v show ?thesis by blast
  qed
qed

lemma discount_NegZero:
  "calculateDiscount undef NegZero original = calculateDiscount undef (Finite 0) original"
  by (cases original) (auto simp: calculateDiscount_def f64_le_def f64_ge_def f64_sub_def)

section \<open>The examples, evaluated\<close>

lemma fmt_d_1: "fmt_d 1 = ''1''"
  by (simp add: fmt_d_def dec_nat.simps)

lemma fmt_d_2: "fmt_d 2 = ''2''"
  by (simp add: fmt_d_def dec_nat.simps)

lemma fmt_d_3: "fmt_d 3 = ''3''"
  by (simp add: fmt_d_def dec_nat.simps)

lemma stableID_examples:
  "stableID productA = ''urn:advent:1''" "stableID productB = ''urn:advent:2''"
  "stableID productC = ''urn:advent:3''"
  by (simp_all add: stableID_def productA_def productB_def productC_def exampleProduct_def
      fmt_d_1 fmt_d_2 fmt_d_3)

lemma parse_examples:
  "time_Parse exampleRuntime (validFromOf productA) = Some dec1"
  "time_Parse exampleRuntime (validFromOf productB) = Some dec2"
  "time_Parse exampleRuntime (validFromOf productC) = Some dec1"
  by (simp_all add: productA_def productB_def productC_def exampleProduct_def exampleRuntime_def
      exampleParse_def validFromOf_def)

lemma not_less_CA: "\<not> lessValidFrom exampleRuntime productC productA"
  by (simp add: lessValidFrom_def parseValidFrom_def parse_examples After_def)

lemma sort_Slice_example: "sort_Slice exampleRuntime = insertionSort"
  by (simp add: exampleRuntime_def)

lemma sorted_AC:
  "sortedProducts exampleRuntime [[productA, productC]] (exampleCalendar (Some 0))
     = [productA, productC]"
  by (simp add: sortedProducts_def slice_elems_def exampleCalendar_def sort_Slice_example
      insertionSort_def not_less_CA)

lemma newCache_miss: "Cache_Get now (newCache d) = (None, newCache d)"
  by (simp add: Cache_Get_def newCache_def)

lemma example_hit: "fst (Cache_Get dec1 exampleCache) = Some exampleFeed"
  by (simp add: Cache_Get_def exampleCache_def Since_def Sub_def)

lemma example_fetch_error:
  "fetchAdventCalendar (TransportError ''timeout'') (st_heap (exampleState (newCache 300000000000)))
     = (Inl ''failed to fetch data: timeout'', [])"
  by (simp add: fetchAdventCalendar_def exampleState_def)

lemma example_fetch_ok:
  "fetchAdventCalendar (Response 200 ''[{}]'' (Inr [exampleDecoded]))
     (st_heap (exampleState (newCache 300000000000))) = (Inr (exampleCalendar None), [])"
  by (simp add: fetchAdventCalendar_def exampleState_def exampleDecoded_def exampleCalendar_def)

lemma example_build:
  "buildAtomFeed exampleRuntime exampleConfig dec1 [] (exampleCalendar None) = (Inr exampleFeed, [[]])"
  by (simp add: buildAtomFeed_eq exampleFeed_def exampleCalendar_def exampleConfig_def
      exampleRuntime_def exampleFormat_def sortedProducts_def slice_elems_def insertionSort_def
      fixIcon_def go_slice_to_def)

section \<open>The cache\<close>

text \<open>
  C10: a cache on which \<open>Set\<close> was never called misses at every time and for every TTL,
  and stays as it is.
\<close>

theorem fresh_cache_always_misses: "Cache_Get now (newCache d) = (None, newCache d)"
  by (simp add: Cache_Get_def newCache_def)

text \<open>
  C3: a cache that holds a document, fetched at \<open>fetchedAt\<close> with the TTL \<open>ttl\<close>, returns
  the document at the time \<open>fetchedAt + ttl - eps\<close> and misses at \<open>fetchedAt + ttl + eps\<close>,
  for every \<open>eps\<close> with \<open>0 < eps < ttl\<close>; neither call changes the cache.
\<close>

theorem cache_ttl_window:
  assumes "cache_data c = Some doc" and "0 < eps" and "eps < sint (cache_duration c)"
    and "instant t1 = instant (cache_fetchedAt c) + sint (cache_duration c) - eps"
    and "instant t2 = instant (cache_fetchedAt c) + sint (cache_duration c) + eps"
  shows "Cache_Get t1 c = (Some doc, c) \<and> Cache_Get t2 c = (None, c)"
proof -
  have b: "sint (cache_duration c) \<le> 2 ^ 63 - 1"
    using sint_lt [of "cache_duration c"] by simp
  show ?thesis using assms b by (simp add: Cache_Get_def Since_def Sub_def)
qed

theorem cache_ttl_window_witness:
  "Cache_Get \<lparr>instant = 63868608000000000000 + 300000000000 - 1, zoneOffset = 0\<rparr> exampleCache
     = (Some exampleFeed, exampleCache) \<and>
   Cache_Get \<lparr>instant = 63868608000000000000 + 300000000000 + 1, zoneOffset = 0\<rparr> exampleCache
     = (None, exampleCache)"
  by (rule cache_ttl_window [where eps = 1]) (simp_all add: exampleCache_def dec1_def)

section \<open>The feed service\<close>

lemma Cache_Get_hit:
  "fst (Cache_Get tGet c) = Some cached \<Longrightarrow> Cache_Get tGet c = (Some cached, c)"
  by (auto simp: Cache_Get_def split: if_splits)

lemma Cache_Get_miss:
  "fst (Cache_Get tGet c) = None \<Longrightarrow> Cache_Get tGet c = (None, c)"
  by (auto simp: Cache_Get_def split: if_splits)

text \<open>
  C4: on a cache hit \<open>getFeed\<close> returns the cached document, sends no request upstream
  and leaves the cache as it is; on a miss with a failed fetch it returns that error and
  leaves the cache as it is; on a miss with a successful fetch it returns the feed that
  \<open>buildAtomFeed\<close> builds and stores it in the cache.
\<close>

theorem getFeed_cases:
  "(\<forall>cached. fst (Cache_Get tGet (st_cache s)) = Some cached \<longrightarrow>
      fst (getFeed rt cfg tGet tBuild tSet up s) = Inr cached \<and>
      st_cache (snd (getFeed rt cfg tGet tBuild tSet up s)) = st_cache s \<and>
      st_fetches (snd (getFeed rt cfg tGet tBuild tSet up s)) = st_fetches s) \<and>
   (\<forall>err h1. fst (Cache_Get tGet (st_cache s)) = None \<and>
      fetchAdventCalendar up (st_heap s) = (Inl err, h1) \<longrightarrow>
      fst (getFeed rt cfg tGet tBuild tSet up s) = Inl (Failed err) \<and>
      st_cache (snd (getFeed rt cfg tGet tBuild tSet up s)) = st_cache s) \<and>
   (\<forall>calendar h1. fst (Cache_Get tGet (st_cache s)) = None \<and>
      fetchAdventCalendar up (st_heap s) = (Inr calendar, h1) \<longrightarrow>
      (\<exists>feed h2. buildAtomFeed rt cfg tBuild h1 calendar = (Inr feed, h2) \<and>
         fst (getFeed rt cfg tGet tBuild tSet up s) = Inr feed \<and>
         st_cache (snd (getFeed rt cfg tGet tBuild tSet up s)) =
           Cache_Set tSet feed (st_cache s)))"
proof (intro conjI allI impI)
  fix cached
  assume "fst (Cache_Get tGet (st_cache s)) = Some cached"
  then have g: "Cache_Get tGet (st_cache s) = (Some cached, st_cache s)"
    by (rule Cache_Get_hit)
  show "fst (getFeed rt cfg tGet tBuild tSet up s) = Inr cached"
    by (simp add: getFeed_def g)
  show "st_cache (snd (getFeed rt cfg tGet tBuild tSet up s)) = st_cache s"
    by (simp add: getFeed_def g)
  show "st_fetches (snd (getFeed rt cfg tGet tBuild tSet up s)) = st_fetches s"
    by (simp add: getFeed_def g)
next
  fix err h1
  assume a: "fst (Cache_Get tGet (st_cache s)) = None \<and>
      fetchAdventCalendar up (st_heap s) = (Inl err, h1)"
  then have g: "Cache_Get tGet (st_cache s) = (None, st_cache s)"
    by (simp add: Cache_Get_miss)
  show "fst (getFeed rt cfg tGet tBuild tSet up s) = Inl (Failed err)"
    using a by (simp add: getFeed_def g)
  show "st_cache (snd (getFeed rt cfg tGet tBuild tSet up s)) = st_cache s"
    using a by (simp add: getFeed_def g)
next
  fix calendar h1
  assume a: "fst (Cache_Get tGet (st_cache s)) = None \<and>
      fetchAdventCalendar up (st_heap s) = (Inr calendar, h1)"
  then have g: "Cache_Get tGet (st_cache s) = (None, st_cache s)"
    by (simp add: Cache_Get_miss)
  obtain feed h2 where b: "buildAtomFeed rt cfg tBuild h1 calendar = (Inr feed, h2)"
    using buildAtomFeed_total by blast
  have "fst (getFeed rt cfg tGet tBuild tSet up s) = Inr feed"
    using a b by (simp add: getFeed_def g)
  moreover have "st_cache (snd (getFeed rt cfg tGet tBuild tSet up s)) =
      Cache_Set tSet feed (st_cache s)"
    using a b by (simp add: getFeed_def g)
  ultimately show "\<exists>feed h2. buildAtomFeed rt cfg tBuild h1 calendar = (Inr feed, h2) \<and>
         fst (getFeed rt cfg tGet tBuild tSet up s) = Inr feed \<and>
         st_cache (snd (getFeed rt cfg tGet tBuild tSet up s)) =
           Cache_Set tSet feed (st_cache s)"
    using b by blast
qed

theorem getFeed_cases_witness:
  "fst (getFeed exampleRuntime exampleConfig dec1 dec1 dec1 (TransportError ''timeout'')
         (exampleState exampleCache)) = Inr exampleFeed \<and>
   st_cache (snd (getFeed exampleRuntime exampleConfig dec1 dec1 dec1 (TransportError ''timeout'')
         (exampleState exampleCache))) = exampleCache \<and>
   fst (getFeed exampleRuntime exampleConfig dec1 dec1 dec1 (TransportError ''timeout'')
         (exampleState (newCache 300000000000))) = Inl (Failed ''failed to fetch data: timeout'') \<and>
   st_cache (snd (getFeed exampleRuntime exampleConfig dec1 dec1 dec1 (TransportError ''timeout'')
         (exampleState (newCache 300000000000)))) = newCache 300000000000 \<and>
   fst (getFeed exampleRuntime exampleConfig dec1 dec1 dec1
         (Response 200 ''[{}]'' (Inr [exampleDecoded]))
         (exampleState (newCache 300000000000))) = Inr exampleFeed \<and>
   st_cache (snd (getFeed exampleRuntime exampleConfig dec1 dec1 dec1
         (Response 200 ''[{}]'' (Inr [exampleDecoded]))
         (exampleState (newCache 300000000000)))) = exampleCache"
proof -
  have miss: "fst (Cache_Get dec1 (st_cache (exampleState (newCache 300000000000)))) = None"
    by (simp add: exampleState_def newCache_miss)
  have hit: "fst (Cache_Get dec1 (st_cache (exampleState exampleCache))) = Some exampleFeed"
    by (simp add: exampleState_def example_hit)
  note c1 = getFeed_cases [of dec1 "exampleState exampleCache" exampleRuntime exampleConfig
      dec1 dec1 "TransportError ''timeout''"]
  note c2 = getFeed_cases [of dec1 "exampleState (newCache 300000000000)" exampleRuntime
      exampleConfig dec1 dec1 "TransportError ''timeout''"]
  note c3 = getFeed_cases [of dec1 "exampleState (newCache 300000000000)" exampleRuntime
      exampleConfig dec1 dec1 "Response 200 ''[{}]'' (Inr [exampleDecoded])"]
  have a: "fst (getFeed exampleRuntime exampleConfig dec1 dec1 dec1 (TransportError ''timeout'')
         (exampleState exampleCache)) = Inr exampleFeed \<and>
      st_cache (snd (getFeed exampleRuntime exampleConfig dec1 dec1 dec1
         (TransportError ''timeout'') (exampleState exampleCache))) = exampleCache"
    using c1 hit by (simp add: exampleState_def)
  have b: "fst (getFeed exampleRuntime exampleConfig dec1 dec1 dec1 (TransportError ''timeout'')
         (exampleState (newCache 300000000000))) = Inl (Failed ''failed to fetch data: timeout'') \<and>
      st_cache (snd (getFeed exampleRuntime exampleConfig dec1 dec1 dec1
         (TransportError ''timeout'') (exampleState (newCache 300000000000)))) =
        newCache 300000000000"
    using c2 miss example_fetch_error by (simp add: exampleState_def)
  have c: "fst (getFeed exampleRuntime exampleConfig dec1 dec1 dec1
         (Response 200 ''[{}]'' (Inr [exampleDecoded]))
         (exampleState (newCache 300000000000))) = Inr exampleFeed \<and>
      st_cache (snd (getFeed exampleRuntime exampleConfig dec1 dec1 dec1
         (Response 200 ''[{}]'' (Inr [exampleDecoded]))
         (exampleState (newCache 300000000000)))) = exampleCache"
    using c3 miss example_fetch_ok example_build
    by (auto simp add: exampleState_def Cache_Set_def newCache_def exampleCache_def)
  from a b c show ?thesis by simp
qed

section \<open>The feed builder\<close>

text \<open>
  C6, as the code has it: the icon of the feed is the header's image URL, with the two
  leading slashes replaced by \<open>https://\<close> when the URL begins with \<open>//\<close> and is longer
  than these two characters; every other URL, the bare \<open>//\<close> among them, is kept.
\<close>

theorem icon_rewrite:
  "\<exists>feed h'. buildAtomFeed rt cfg now h calendar = (Inr feed, h') \<and>
     feed_Icon feed =
       (if 2 < length (hdr_ImageURL (cal_Header calendar)) \<and>
           take 2 (hdr_ImageURL (cal_Header calendar)) = ''//''
        then ''https://'' @ drop 2 (hdr_ImageURL (cal_Header calendar))
        else hdr_ImageURL (cal_Header calendar))"
  by (simp add: buildAtomFeed_eq fixIcon_eq)

theorem icon_rewrite_witness:
  "feed_Icon (projr (fst (buildAtomFeed exampleRuntime exampleConfig dec1 []
       (iconCalendar ''//example.com/x.png'')))) = ''https://example.com/x.png'' \<and>
   feed_Icon (projr (fst (buildAtomFeed exampleRuntime exampleConfig dec1 []
       (iconCalendar ''https://already.com/y.png'')))) = ''https://already.com/y.png''"
  using icon_rewrite [of exampleRuntime exampleConfig dec1 "[]" "iconCalendar ''//example.com/x.png''"]
    icon_rewrite [of exampleRuntime exampleConfig dec1 "[]" "iconCalendar ''https://already.com/y.png''"]
  by (auto simp: iconCalendar_def)

theorem icon_bare_slashes_counterexample:
  "prefix ''//'' ''//'' \<and>
   feed_Icon (projr (fst (buildAtomFeed exampleRuntime exampleConfig dec1 [] (iconCalendar ''//'')))) = ''//'' \<and>
   \<not> prefix ''https://'' ''//''"
  by (simp add: buildAtomFeed_eq fixIcon_eq iconCalendar_def)



text \<open>
  C9: building a feed leaves every array of the store as it was, the array of the
  calendar's products among them: the builder sorts a copy at a fresh address.
\<close>

theorem input_products_untouched:
  assumes "valid_slice h (cal_Products calendar)"
  shows "take (length h) (snd (buildAtomFeed rt cfg now h calendar)) = h \<and>
         slice_elems (snd (buildAtomFeed rt cfg now h calendar)) (cal_Products calendar) =
           slice_elems h (cal_Products calendar)"
  using assms
  by (auto simp: buildAtomFeed_eq slice_elems_def valid_slice_def nth_append split: option.splits)

theorem input_products_untouched_witness:
  "valid_slice [[productA, productB]] (cal_Products (exampleCalendar (Some 0))) \<and>
   take 1 (snd (buildAtomFeed exampleRuntime exampleConfig dec2 [[productA, productB]]
      (exampleCalendar (Some 0)))) = [[productA, productB]] \<and>
   slice_elems (snd (buildAtomFeed exampleRuntime exampleConfig dec2 [[productA, productB]]
      (exampleCalendar (Some 0)))) (Some 0) = [productA, productB]"
  using input_products_untouched [of "[[productA, productB]]" "exampleCalendar (Some 0)" exampleRuntime
      exampleConfig dec2]
  by (simp add: valid_slice_def exampleCalendar_def slice_elems_def)

text \<open>
  C2, as the code has it: the entries are built, in order, from a rearrangement of the
  calendar's products in which the parsed valid-from timestamps descend: an entry comes
  before another only if its timestamp is at least the other's, and an entry with a
  greater timestamp comes before one with a smaller timestamp. A string that does not
  parse counts as the zero timestamp. The order of entries with equal timestamps is open.
\<close>

theorem entries_descending_by_validFrom:
  assumes "sort_Slice_ok rt"
  shows "\<exists>feed h' ps. buildAtomFeed rt cfg now h calendar = (Inr feed, h') \<and>
     mset ps = mset (slice_elems h (cal_Products calendar)) \<and>
     map (buildEntry rt cfg) ps = map Inr (feed_Entries feed) \<and>
     (\<forall>i j. i < j \<and> j < length ps \<longrightarrow>
        instant (parseValidFrom rt (validFromOf (ps ! j)))
          \<le> instant (parseValidFrom rt (validFromOf (ps ! i)))) \<and>
     (\<forall>i j. i < length ps \<and> j < length ps \<and>
        instant (parseValidFrom rt (validFromOf (ps ! j)))
          < instant (parseValidFrom rt (validFromOf (ps ! i))) \<longrightarrow> i < j) \<and>
     (\<forall>v. time_Parse rt v = None \<longrightarrow> parseValidFrom rt v = zeroTime)"
proof -
  let ?ps = "sortedProducts rt h calendar"
  let ?t = "\<lambda>k. instant (parseValidFrom rt (validFromOf (?ps ! k)))"
  have le: "?t j \<le> ?t i" if "i < j" "j < length ?ps" for i j
    using sorted_descending [OF assms that] .
  have lt: "i < j" if "i < length ?ps" "j < length ?ps" "?t j < ?t i" for i j
  proof (rule ccontr)
    assume "\<not> i < j"
    then have "j = i \<or> j < i" by auto
    then show False
    proof
      assume "j = i" with that(3) show False by simp
    next
      assume "j < i"
      then have "?t i \<le> ?t j" using le that(1) by blast
      with that(3) show False by simp
    qed
  qed
  have "buildAtomFeed rt cfg now h calendar =
      (Inr (projr (fst (buildAtomFeed rt cfg now h calendar))), snd (buildAtomFeed rt cfg now h calendar))"
    by (simp add: buildAtomFeed_eq)
  moreover have "mset ?ps = mset (slice_elems h (cal_Products calendar))"
    by (rule sortedProducts_mset [OF assms])
  moreover have "map (buildEntry rt cfg) ?ps =
      map Inr (feed_Entries (projr (fst (buildAtomFeed rt cfg now h calendar))))"
    by (simp add: buildAtomFeed_eq map_buildEntry_projr)
  moreover have "\<forall>v. time_Parse rt v = None \<longrightarrow> parseValidFrom rt v = zeroTime"
    by (simp add: parseValidFrom_def)
  ultimately show ?thesis using le lt by blast
qed

lemma instant_A: "instant (parseValidFrom exampleRuntime (validFromOf productA)) = instant dec1"
  by (simp add: parseValidFrom_def parse_examples)

lemma instant_B: "instant (parseValidFrom exampleRuntime (validFromOf productB)) = instant dec2"
  by (simp add: parseValidFrom_def parse_examples)

theorem entries_descending_by_validFrom_witness:
  "map entry_ID (feed_Entries (projr (fst (buildAtomFeed exampleRuntime exampleConfig dec2
      [[productA, productB]] (exampleCalendar (Some 0)))))) = [''urn:advent:2'', ''urn:advent:1'']"
proof -
  obtain feed h' ps where
    b: "buildAtomFeed exampleRuntime exampleConfig dec2 [[productA, productB]] (exampleCalendar (Some 0))
          = (Inr feed, h')" and
    m: "mset ps = mset (slice_elems [[productA, productB]] (cal_Products (exampleCalendar (Some 0))))" and
    e: "map (buildEntry exampleRuntime exampleConfig) ps = map Inr (feed_Entries feed)" and
    le: "\<forall>i j. i < j \<and> j < length ps \<longrightarrow>
        instant (parseValidFrom exampleRuntime (validFromOf (ps ! j)))
          \<le> instant (parseValidFrom exampleRuntime (validFromOf (ps ! i)))"
    using entries_descending_by_validFrom [OF sort_Slice_ok_example, of exampleConfig dec2
        "[[productA, productB]]" "exampleCalendar (Some 0)"]
    by blast
  from m have "mset ps = {#productB, productA#}"
    by (simp add: slice_elems_def exampleCalendar_def)
  then have "ps = [productB, productA] \<or> ps = [productA, productB]" by (rule mset_pair)
  moreover have "ps \<noteq> [productA, productB]"
  proof
    assume "ps = [productA, productB]"
    with le [rule_format, of 0 1] show False
      by (simp add: instant_A instant_B dec1_def dec2_def)
  qed
  ultimately have ps: "ps = [productB, productA]" by blast
  obtain e2 e1 where e2: "buildEntry exampleRuntime exampleConfig productB = Inr e2"
    and e1: "buildEntry exampleRuntime exampleConfig productA = Inr e1"
    using buildEntry_total by blast
  have "map Inr (feed_Entries feed) = [Inr e2, Inr e1 :: panic + AtomEntry]"
    using e [symmetric] by (simp add: ps e1 e2)
  then have "feed_Entries feed = [e2, e1]"
    by (auto simp: map_eq_Cons_conv)
  moreover have "entry_ID e1 = ''urn:advent:1''" and "entry_ID e2 = ''urn:advent:2''"
    using entry_ID_buildEntry [OF e1] entry_ID_buildEntry [OF e2]
    by (simp_all add: stableID_def productA_def productB_def exampleProduct_def fmt_d_1 fmt_d_2)
  ultimately show ?thesis by (simp add: b)
qed

text \<open>
  Two products with the same timestamp: the entry of \<open>productC\<close> comes after the entry of
  \<open>productA\<close>, though its timestamp is at least that of \<open>productA\<close>.
\<close>

theorem equal_timestamps_counterexample:
  "map entry_ID (feed_Entries (projr (fst (buildAtomFeed exampleRuntime exampleConfig dec2
      [[productA, productC]] (exampleCalendar (Some 0))))))
     = [''urn:advent:1'', ''urn:advent:3''] \<and>
   time_Parse exampleRuntime (validFromOf productA) = Some dec1 \<and>
   time_Parse exampleRuntime (validFromOf productC) = Some dec1 \<and>
   instant (parseValidFrom exampleRuntime (validFromOf productA))
     \<le> instant (parseValidFrom exampleRuntime (validFromOf productC))"
proof -
  have "map entry_ID (feed_Entries (projr (fst (buildAtomFeed exampleRuntime exampleConfig
      dec2 [[productA, productC]] (exampleCalendar (Some 0))))))
     = [''urn:advent:1'', ''urn:advent:3'']"
    by (simp add: buildAtomFeed_eq sorted_AC entry_ID_projr stableID_examples)
  then show ?thesis by (simp add: parseValidFrom_def parse_examples)
qed

text \<open>
  C8: \<open>buildAtomFeed\<close> returns a feed for every calendar, store and runtime, and each
  product gets an entry; a calendar without products gives a feed without entries; a
  valid-from string that does not parse gives the zero Time, a missing instead-of price
  the discount 0, no image an empty image tag and no rating an empty rating line.
\<close>

theorem buildAtomFeed_never_fails:
  "(\<exists>feed h'. buildAtomFeed rt cfg now h calendar = (Inr feed, h') \<and>
      (sort_Slice_ok rt \<longrightarrow>
         length (feed_Entries feed) = length (slice_elems h (cal_Products calendar))) \<and>
      (sort_Slice_ok rt \<and> slice_elems h (cal_Products calendar) = [] \<longrightarrow>
         feed_Entries feed = [])) \<and>
   (\<exists>e. buildEntry rt cfg p = Inr e \<and>
      entry_Updated e = time_Format rt (parseValidFrom rt (validFromOf p))) \<and>
   (time_Parse rt (validFromOf p) = None \<longrightarrow> parseValidFrom rt (validFromOf p) = zeroTime) \<and>
   (offer_InsteadOfPrice (p_Offer p) = None \<longrightarrow> discountOf rt p = 0) \<and>
   (prod_Images (p_Product p) = [] \<longrightarrow> imageHTML p = Inr []) \<and>
   (prod_TotalRatings (p_Product p) = 0 \<longrightarrow> ratingInfo p = [])"
proof (intro conjI impI)
  have len: "length (sortedProducts rt h calendar) = length (slice_elems h (cal_Products calendar))"
    if "sort_Slice_ok rt"
    using sortedProducts_mset [OF that, of h calendar] by (metis size_mset)
  show "\<exists>feed h'. buildAtomFeed rt cfg now h calendar = (Inr feed, h') \<and>
      (sort_Slice_ok rt \<longrightarrow>
         length (feed_Entries feed) = length (slice_elems h (cal_Products calendar))) \<and>
      (sort_Slice_ok rt \<and> slice_elems h (cal_Products calendar) = [] \<longrightarrow>
         feed_Entries feed = [])"
    using len by (auto simp: buildAtomFeed_eq)
  obtain s where s: "imageHTML p = Inr s" using imageHTML_total by blast
  show "\<exists>e. buildEntry rt cfg p = Inr e \<and>
      entry_Updated e = time_Format rt (parseValidFrom rt (validFromOf p))"
    by (simp add: buildEntry_def s)
next
  assume "time_Parse rt (validFromOf p) = None"
  then show "parseValidFrom rt (validFromOf p) = zeroTime" by (simp add: parseValidFrom_def)
next
  assume "offer_InsteadOfPrice (p_Offer p) = None"
  then show "discountOf rt p = 0" by (simp add: discountOf_def)
next
  assume "prod_Images (p_Product p) = []"
  then show "imageHTML p = Inr []" by (simp add: imageHTML_def)
next
  assume "prod_TotalRatings (p_Product p) = 0"
  then show "ratingInfo p = []" by (simp add: ratingInfo_def)
qed

theorem buildAtomFeed_never_fails_witness:
  "buildAtomFeed exampleRuntime exampleConfig dec1 [] (exampleCalendar None)
     = (Inr exampleFeed, [[]]) \<and>
   feed_Entries exampleFeed = [] \<and>
   parseValidFrom exampleRuntime (validFromOf zeroProduct) = zeroTime \<and>
   discountOf exampleRuntime zeroProduct = 0 \<and>
   imageHTML zeroProduct = Inr [] \<and>
   ratingInfo zeroProduct = [] \<and>
   entry_Updated (projr (buildEntry exampleRuntime exampleConfig zeroProduct))
     = ''0001-01-01T00:00:00Z''"
proof -
  note t = buildAtomFeed_never_fails [of exampleRuntime exampleConfig dec1 "[]"
      "exampleCalendar None" zeroProduct]
  have h1: "time_Parse exampleRuntime (validFromOf zeroProduct) = None"
    by (simp add: exampleRuntime_def exampleParse_def validFromOf_def zeroProduct_def)
  have h2: "offer_InsteadOfPrice (p_Offer zeroProduct) = None"
    and h3: "prod_Images (p_Product zeroProduct) = []"
    and h4: "prod_TotalRatings (p_Product zeroProduct) = 0"
    by (simp_all add: zeroProduct_def)
  have h5: "slice_elems [] (cal_Products (exampleCalendar None)) = []"
    by (simp add: slice_elems_def exampleCalendar_def)
  have z: "parseValidFrom exampleRuntime (validFromOf zeroProduct) = zeroTime"
    using t h1 by blast
  have f: "time_Format exampleRuntime zeroTime = ''0001-01-01T00:00:00Z''"
    by (simp add: exampleRuntime_def exampleFormat_def zeroTime_def dec1_def dec2_def)
  have "entry_Updated (projr (buildEntry exampleRuntime exampleConfig zeroProduct))
     = ''0001-01-01T00:00:00Z''"
    using t z f by auto
  moreover have "feed_Entries exampleFeed = []" by (simp add: exampleFeed_def)
  ultimately show ?thesis
    using t h2 h3 h4 z example_build by simp
qed

text \<open>
  C1, as the code has it: the discount is 0 when there is no instead-of price, and
  otherwise what \<open>calculateDiscount\<close> returns for the current and the original price:
  0 when the original price is at most 0 or the current price is at least the original
  one, and in every other case \<open>int(v)\<close> for the float64 value \<open>v\<close> of
  \<open>((original - current) / original) * 100\<close>, each operation rounded to the nearest
  float64. The conversion truncates \<open>v\<close> towards zero when that fits an int and gives
  the platform's value when it does not (a finite \<open>v\<close> out of range, an infinity, a NaN).
  For an original price \<open>o'\<close> that is a float64 and a current price \<open>c\<close> with
  \<open>0 \<le> c < o'\<close>, \<open>v\<close> lies between 0 and 100 and the discount is its floor, between 0
  and 100, both included. For \<open>c < 0 < o'\<close>, \<open>v\<close> is the positive infinity or at least
  100, and the discount is its floor whenever that fits. The negative zero as current
  price gives what the price 0 gives.
\<close>

theorem discount_cases:
  "(offer_InsteadOfPrice (p_Offer p) = None \<longrightarrow> discountOf rt p = 0) \<and>
   (\<forall>io. offer_InsteadOfPrice (p_Offer p) = Some io \<longrightarrow>
      discountOf rt p =
        calculateDiscount (conv_undefined rt) (price_AmountInclusive (offer_Price (p_Offer p)))
          (iprice_AmountInclusive (instead_Price io))) \<and>
   (f64_le original (Finite 0) \<or> f64_ge current original \<longrightarrow>
      calculateDiscount undef current original = 0) \<and>
   (\<not> (f64_le original (Finite 0) \<or> f64_ge current original) \<longrightarrow>
      calculateDiscount undef current original =
        f64_to_int undef (f64_mul (f64_div (f64_sub original current) original) (Finite 100))) \<and>
   (- (2 ^ 63) \<le> trunc r \<and> trunc r < 2 ^ 63 \<longrightarrow>
      sint (f64_to_int undef (Finite r)) = trunc r) \<and>
   (\<not> (- (2 ^ 63) \<le> trunc r \<and> trunc r < 2 ^ 63) \<longrightarrow>
      f64_to_int undef (Finite r) = undef (Finite r)) \<and>
   f64_to_int undef PosInf = undef PosInf \<and>
   f64_to_int undef NegInf = undef NegInf \<and>
   f64_to_int undef NaN = undef NaN \<and>
   f64_to_int undef NegZero = 0 \<and>
   (is_f64 o' \<and> 0 \<le> c \<and> c < o' \<longrightarrow>
      (\<exists>v. f64_mul (f64_div (f64_sub (Finite o') (Finite c)) (Finite o')) (Finite 100) = Finite v \<and>
         0 \<le> v \<and> v \<le> 100 \<and>
         sint (calculateDiscount undef (Finite c) (Finite o')) = \<lfloor>v\<rfloor> \<and>
         0 \<le> sint (calculateDiscount undef (Finite c) (Finite o')) \<and>
         sint (calculateDiscount undef (Finite c) (Finite o')) \<le> 100)) \<and>
   (is_f64 o' \<and> c < 0 \<and> 0 < o' \<longrightarrow>
      f64_mul (f64_div (f64_sub (Finite o') (Finite c)) (Finite o')) (Finite 100) = PosInf \<or>
      (\<exists>v. f64_mul (f64_div (f64_sub (Finite o') (Finite c)) (Finite o')) (Finite 100) = Finite v \<and>
         100 \<le> v \<and>
         (\<lfloor>v\<rfloor> < 2 ^ 63 \<longrightarrow>
            sint (calculateDiscount undef (Finite c) (Finite o')) = \<lfloor>v\<rfloor>))) \<and>
   calculateDiscount undef NegZero original = calculateDiscount undef (Finite 0) original"
proof (intro conjI allI impI)
  assume "offer_InsteadOfPrice (p_Offer p) = None"
  then show "discountOf rt p = 0" by (simp add: discountOf_def)
next
  fix io
  assume "offer_InsteadOfPrice (p_Offer p) = Some io"
  then show "discountOf rt p =
        calculateDiscount (conv_undefined rt) (price_AmountInclusive (offer_Price (p_Offer p)))
          (iprice_AmountInclusive (instead_Price io))"
    by (simp add: discountOf_def)
next
  assume "f64_le original (Finite 0) \<or> f64_ge current original"
  then show "calculateDiscount undef current original = 0"
    by (simp add: calculateDiscount_def)
next
  assume "\<not> (f64_le original (Finite 0) \<or> f64_ge current original)"
  then show "calculateDiscount undef current original =
        f64_to_int undef (f64_mul (f64_div (f64_sub original current) original) (Finite 100))"
    by (simp add: calculateDiscount_def)
next
  assume "- (2 ^ 63) \<le> trunc r \<and> trunc r < 2 ^ 63"
  then show "sint (f64_to_int undef (Finite r)) = trunc r"
    using to_int_fits [of r undef] by blast
next
  assume "\<not> (- (2 ^ 63) \<le> trunc r \<and> trunc r < 2 ^ 63)"
  then show "f64_to_int undef (Finite r) = undef (Finite r)" by (rule to_int_unfit)
next
  show "f64_to_int undef PosInf = undef PosInf" "f64_to_int undef NegInf = undef NegInf"
    "f64_to_int undef NaN = undef NaN" "f64_to_int undef NegZero = 0"
    by (simp_all add: f64_to_int_def)
next
  assume "is_f64 o' \<and> 0 \<le> c \<and> c < o'"
  then show "\<exists>v. f64_mul (f64_div (f64_sub (Finite o') (Finite c)) (Finite o')) (Finite 100) = Finite v \<and>
         0 \<le> v \<and> v \<le> 100 \<and>
         sint (calculateDiscount undef (Finite c) (Finite o')) = \<lfloor>v\<rfloor> \<and>
         0 \<le> sint (calculateDiscount undef (Finite c) (Finite o')) \<and>
         sint (calculateDiscount undef (Finite c) (Finite o')) \<le> 100"
    using discount_range [of o' c undef] by blast
next
  assume "is_f64 o' \<and> c < 0 \<and> 0 < o'"
  then show "f64_mul (f64_div (f64_sub (Finite o') (Finite c)) (Finite o')) (Finite 100) = PosInf \<or>
      (\<exists>v. f64_mul (f64_div (f64_sub (Finite o') (Finite c)) (Finite o')) (Finite 100) = Finite v \<and>
         100 \<le> v \<and>
         (\<lfloor>v\<rfloor> < 2 ^ 63 \<longrightarrow>
            sint (calculateDiscount undef (Finite c) (Finite o')) = \<lfloor>v\<rfloor>))"
    using discount_negative [of o' c undef] by blast
next
  show "calculateDiscount undef NegZero original = calculateDiscount undef (Finite 0) original"
    by (rule discount_NegZero)
qed

lemma discountOf_priced:
  "discountOf rt (pricedProduct c o') = calculateDiscount (conv_undefined rt) (Finite c) (Finite o')"
  by (simp add: discountOf_def pricedProduct_def)

theorem discount_cases_witness:
  "discountOf exampleRuntime zeroProduct = 0 \<and>
   discountOf exampleRuntime (pricedProduct 8 10) = 20 \<and>
   calculateDiscount (conv_undefined exampleRuntime) (Finite 10) (Finite 8) = 0 \<and>
   sint (calculateDiscount (conv_undefined exampleRuntime) (Finite (- 5)) (Finite 10)) = 150 \<and>
   calculateDiscount (conv_undefined exampleRuntime)
     (Finite (- 1267650600228229401496703205376)) (Finite 10) = - (2 ^ 63) \<and>
   0 \<le> sint (calculateDiscount (conv_undefined exampleRuntime) (Finite 8) (Finite 10)) \<and>
   sint (calculateDiscount (conv_undefined exampleRuntime) (Finite 8) (Finite 10)) \<le> 100 \<and>
   100 \<le> sint (calculateDiscount (conv_undefined exampleRuntime) (Finite (- 5)) (Finite 10)) \<and>
   calculateDiscount (conv_undefined exampleRuntime) NegZero (Finite 10) = 100"
proof -
  let ?u = "conv_undefined exampleRuntime"
  have a: "discountOf exampleRuntime zeroProduct = 0"
    using discount_cases [where p = zeroProduct and rt = exampleRuntime]
    by (simp add: zeroProduct_def)
  have "offer_InsteadOfPrice (p_Offer (pricedProduct 8 10))
      = Some \<lparr>instead_Price = \<lparr>iprice_AmountInclusive = Finite 10\<rparr>\<rparr>"
    by (simp add: pricedProduct_def)
  then have "discountOf exampleRuntime (pricedProduct 8 10) = calculateDiscount ?u (Finite 8) (Finite 10)"
    using discount_cases [where p = "pricedProduct 8 10" and rt = exampleRuntime]
    by (simp add: pricedProduct_def)
  then have b: "discountOf exampleRuntime (pricedProduct 8 10) = 20"
    by (simp add: discount_8_10)
  have c: "calculateDiscount ?u (Finite 10) (Finite 8) = 0"
    using discount_cases [where original = "Finite 8" and current = "Finite 10" and undef = ?u]
    by (simp add: f64_ge_def f64_le_def)
  have "calculateDiscount ?u (Finite (- 5)) (Finite 10) = f64_to_int ?u (Finite 150)"
    using discount_cases [where original = "Finite 10" and current = "Finite (- 5)" and undef = ?u]
    by (simp add: f64_ge_def f64_le_def value_m5_10)
  moreover have "sint (f64_to_int ?u (Finite 150)) = 150"
    using discount_cases [where r = 150 and undef = ?u] by (simp add: trunc_def)
  ultimately have d: "sint (calculateDiscount ?u (Finite (- 5)) (Finite 10)) = 150" by simp
  have "calculateDiscount ?u (Finite (- 1267650600228229401496703205376)) (Finite 10)
      = f64_to_int ?u (Finite 12676506002282294014967032053760)"
    using discount_cases [where original = "Finite 10"
        and current = "Finite (- 1267650600228229401496703205376)" and undef = ?u]
    by (simp add: f64_ge_def f64_le_def value_big)
  moreover have "f64_to_int ?u (Finite 12676506002282294014967032053760)
      = ?u (Finite 12676506002282294014967032053760)"
    using discount_cases [where r = 12676506002282294014967032053760 and undef = ?u]
    by (simp add: trunc_def)
  ultimately have e: "calculateDiscount ?u (Finite (- 1267650600228229401496703205376)) (Finite 10)
      = - (2 ^ 63)"
    by (simp add: exampleRuntime_def)
  have "is_f64 10 \<and> (0::rat) \<le> 8 \<and> (8::rat) < 10"
    by (simp add: is_f64_examples)
  then have f: "0 \<le> sint (calculateDiscount ?u (Finite 8) (Finite 10)) \<and>
      sint (calculateDiscount ?u (Finite 8) (Finite 10)) \<le> 100"
    using discount_cases [where p = zeroProduct and rt = exampleRuntime
        and original = "Finite 10" and current = "Finite 8" and r = 0 and undef = ?u
        and c = 8 and o' = 10]
    by blast
  have "is_f64 10 \<and> (- 5 :: rat) < 0 \<and> (0::rat) < 10"
    by (simp add: is_f64_examples)
  then have "f64_mul (f64_div (f64_sub (Finite 10) (Finite (- 5))) (Finite 10)) (Finite 100) = PosInf \<or>
      (\<exists>v. f64_mul (f64_div (f64_sub (Finite 10) (Finite (- 5))) (Finite 10)) (Finite 100) = Finite v \<and>
         100 \<le> v \<and>
         (\<lfloor>v\<rfloor> < 2 ^ 63 \<longrightarrow>
            sint (calculateDiscount ?u (Finite (- 5)) (Finite 10)) = \<lfloor>v\<rfloor>))"
    using discount_cases [where p = zeroProduct and rt = exampleRuntime
        and original = "Finite 10" and current = "Finite 8" and r = 0 and undef = ?u
        and c = "- 5" and o' = 10]
    by blast
  then have g: "100 \<le> sint (calculateDiscount ?u (Finite (- 5)) (Finite 10))"
    by (auto simp: value_m5_10)
  have h: "calculateDiscount ?u NegZero (Finite 10) = 100"
    using discount_cases [where undef = ?u and original = "Finite 10"]
    by (simp add: discount_0_10)
  from a b c d e f g h show ?thesis by simp
qed

text \<open>
  A product that is free instead of 10.00 gets the discount 100. At 71.00 instead of 100.00
  the quotient rounds to a float64 below 0.29 and its product with 100 to one below 29:
  the discount is 28, and the floor of the exact value is 29.
\<close>

theorem free_product_counterexample:
  "discountOf exampleRuntime (pricedProduct 0 10) = 100 \<and>
   discountOf exampleRuntime (pricedProduct 71 100) = 28 \<and>
   \<lfloor>(100 - 71) / 100 * (100 :: rat)\<rfloor> = 29"
  by (simp add: discountOf_priced discount_0_10 discount_71_100)

lemma mset_single_list: "mset xs = {#x#} \<Longrightarrow> xs = [x]"
  by (cases xs) auto

text \<open>
  C7: the calendar with the one product Acme Widget, 8.00 CHF instead of 10.00, 20 of 50
  items sold and a valid-from string that parses, gives one entry: its title starts with
  \<open>[20% off] Acme: Widget\<close>, its stock line is \<open>30/50 remaining\<close>, its id is
  \<open>urn:advent:\<close> followed by the product id, its updated field the parsed time.
\<close>

theorem acme_widget_scenario:
  assumes "prod_BrandName (p_Product p) = ''Acme''"
    and "prod_Name (p_Product p) = ''Widget''"
    and "price_AmountInclusive (offer_Price (p_Offer p)) = Finite 8"
    and "price_Currency (offer_Price (p_Offer p)) = ''CHF''"
    and "offer_InsteadOfPrice (p_Offer p) = Some io"
    and "iprice_AmountInclusive (instead_Price io) = Finite 10"
    and "sales_NumberOfItems (offer_SalesInformation (p_Offer p)) = 50"
    and "sales_NumberOfItemsSold (offer_SalesInformation (p_Offer p)) = 20"
    and "time_Parse rt (validFromOf p) = Some t"
    and "sort_Slice_ok rt"
    and "slice_elems h (cal_Products calendar) = [p]"
  shows "\<exists>feed h' e pre post. buildAtomFeed rt cfg now h calendar = (Inr feed, h') \<and>
     feed_Entries feed = [e] \<and>
     prefix ''[20% off] Acme: Widget'' (entry_Title e) \<and>
     stockInfo p = ''30/50 remaining'' \<and>
     content_Content (entry_Content e) =
       pre @ ''<p><strong>Stock:</strong> 30/50 remaining</p>'' @ post \<and>
     entry_ID e = ''urn:advent:'' @ fmt_d (prod_ProductID (p_Product p)) \<and>
     entry_Updated e = time_Format rt t"
proof -
  have sorted: "sortedProducts rt h calendar = [p]"
    using sortedProducts_mset [OF assms(10), of h calendar] assms(11)
    by (simp add: mset_single_list)
  obtain img where img: "imageHTML p = Inr img" using imageHTML_total by blast
  have disc: "discountOf rt p = 20"
    by (simp add: discountOf_def assms(3,5,6) discount_8_10)
  have title: "titleOf rt p = ''[20% off] Acme: Widget'' @
      (if prod_NameProperties (p_Product p) \<noteq> [] then '' - '' @ prod_NameProperties (p_Product p)
       else [])"
    by (simp add: titleOf_def disc assms(1,2) sless_20 fmt_d_def dec_nat.simps)
  have stock: "stockInfo p = ''30/50 remaining''"
    by (simp add: stockInfo_def assms(7,8) fmt_d_def dec_nat.simps)
  obtain e where e: "buildEntry rt cfg p = Inr e" using buildEntry_total by blast
  have fields: "entry_Title e = titleOf rt p" "entry_ID e = stableID p"
    "entry_Updated e = time_Format rt t"
    "content_Content (entry_Content e) = contentOf cfg p img"
    using e by (auto simp: buildEntry_def img parseValidFrom_def assms(9))
  have content: "\<exists>pre post. contentOf cfg p img =
      pre @ ''<p><strong>Stock:</strong> 30/50 remaining</p>'' @ post"
  proof -
    have \<open>contentOf cfg p img =
        (img @ ''<p><strong>Brand:</strong> '' @ prod_BrandName (p_Product p) @
            ''</p>'' @ [CHR 0x0A] @
            ''<p><strong>Type:</strong> '' @ prod_ProductTypeName (p_Product p) @
            ''</p>'' @ [CHR 0x0A] @
            ''<p><strong>Price:</strong> '' @ priceInfo p @ ''</p>'' @ [CHR 0x0A])
        @ ''<p><strong>Stock:</strong> 30/50 remaining</p>'' @
        ((if ratingInfo p \<noteq> []
          then [CHR 0x0A] @ ''<p><strong>Rating:</strong> '' @ ratingInfo p @ ''</p>'' else []) @
         ''<p><a href="'' @ productURL cfg p @ ''">View on '' @
         store_Name (cfg_Store cfg) @ ''</a></p>'')\<close>
      by (simp add: contentOf_def stock Let_def)
    then show ?thesis by blast
  qed
  then obtain pre post where pp: "contentOf cfg p img =
      pre @ ''<p><strong>Stock:</strong> 30/50 remaining</p>'' @ post" by blast
  have pref: "prefix ''[20% off] Acme: Widget'' (entry_Title e)"
    unfolding fields title by (rule prefixI) simp
  have build: "buildAtomFeed rt cfg now h calendar =
      (Inr (projr (fst (buildAtomFeed rt cfg now h calendar))),
       snd (buildAtomFeed rt cfg now h calendar))"
    by (simp add: buildAtomFeed_eq)
  have entries: "feed_Entries (projr (fst (buildAtomFeed rt cfg now h calendar))) = [e]"
    by (simp add: buildAtomFeed_eq sorted e)
  have ident: "entry_ID e = ''urn:advent:'' @ fmt_d (prod_ProductID (p_Product p))"
    by (simp add: fields stableID_def)
  have cont: "content_Content (entry_Content e) =
      pre @ ''<p><strong>Stock:</strong> 30/50 remaining</p>'' @ post"
    by (simp only: fields pp)
  show ?thesis
    using build entries pref stock cont ident fields(3) by blast
qed

theorem acme_widget_scenario_witness:
  "\<exists>feed h' e pre post.
     buildAtomFeed exampleRuntime exampleConfig dec2 [[productA]] (exampleCalendar (Some 0))
       = (Inr feed, h') \<and>
     feed_Entries feed = [e] \<and>
     prefix ''[20% off] Acme: Widget'' (entry_Title e) \<and>
     stockInfo productA = ''30/50 remaining'' \<and>
     content_Content (entry_Content e) =
       pre @ ''<p><strong>Stock:</strong> 30/50 remaining</p>'' @ post \<and>
     entry_ID e = ''urn:advent:1'' \<and>
     entry_Updated e = ''2024-12-01T00:00:00Z''"
proof -
  have "time_Format exampleRuntime dec1 = ''2024-12-01T00:00:00Z''"
    by (simp add: exampleRuntime_def exampleFormat_def)
  moreover have "fmt_d (prod_ProductID (p_Product productA)) = ''1''"
    by (simp add: productA_def exampleProduct_def fmt_d_1)
  ultimately show ?thesis
    using acme_widget_scenario [of productA
        "\<lparr>instead_Price = \<lparr>iprice_AmountInclusive = Finite 10\<rparr>\<rparr>" exampleRuntime dec1
        "[[productA]]" "exampleCalendar (Some 0)" exampleConfig dec2,
        OF _ _ _ _ _ _ _ _ parse_examples(1) sort_Slice_ok_example]
    by (simp add: productA_def exampleProduct_def slice_elems_def exampleCalendar_def)
qed

end
